theory Spec2Isabelle
  imports Complex_Main
begin

section \<open>JavaScript values\<close>

text \<open>
  The values the library stores in a metric and receives from its callers are JavaScript
  primitives. The model has the ones the three value types of the library carry
  (numbers and booleans) together with \<open>undefined\<close> and the number \<open>NaN\<close>. Finite
  numbers are idealised as exact reals: rounding and overflow of IEEE doubles are not
  modelled. Strings and objects as metric values are outside the model.
\<close>

datatype jsval = Undefined | NaN | Number real | Boolean bool

text \<open>\<open>ToNumber\<close> of the language; \<open>None\<close> stands for \<open>NaN\<close>.\<close>

fun toNumber :: "jsval \<Rightarrow> real option" where
  "toNumber Undefined = None"
| "toNumber NaN = None"
| "toNumber (Number x) = Some x"
| "toNumber (Boolean b) = Some (if b then 1 else 0)"

text \<open>The operator \<open>+\<close> on these values (no operand is a string, so it is numeric addition).\<close>

definition js_add :: "jsval \<Rightarrow> jsval \<Rightarrow> jsval" where
  "js_add a b =
     (case toNumber a of
        None \<Rightarrow> NaN
      | Some x \<Rightarrow> (case toNumber b of None \<Rightarrow> NaN | Some y \<Rightarrow> Number (x + y)))"

text \<open>
  \<open>a / d\<close> and \<open>a * u\<close> with a finite number on the right. The library divides only
  under the guard \<open>d > 0\<close>, so the quotient by zero is never taken.
\<close>

definition js_div :: "jsval \<Rightarrow> real \<Rightarrow> jsval" where
  "js_div a d = (case toNumber a of None \<Rightarrow> NaN | Some x \<Rightarrow> Number (x / d))"

definition js_mul :: "jsval \<Rightarrow> real \<Rightarrow> jsval" where
  "js_mul a u = (case toNumber a of None \<Rightarrow> NaN | Some x \<Rightarrow> Number (x * u))"

datatype error = TypeError | Error string | BackendError string

section \<open>Data model\<close>

record label =
  key :: string
  labelValueType :: string
  labelDescription :: string

record metricDescriptor =
  description :: string
  displayName :: string
  descType :: string
  metricKind :: string
  descValueType :: string
  labels :: "label list"

record metric =
  name :: string
  valueType :: string
  requestDescriptor :: metricDescriptor
  responseDescriptor :: "metricDescriptor option"
  rateInterval :: "real option"
  mvalue :: jsval

text \<open>
  \<open>metricsMap\<close> is a JavaScript \<open>Map\<close>: an association list in insertion order with
  distinct keys.
\<close>

record StackMetrics =
  projectId :: string
  appName :: string
  envName :: string
  metricGroupName :: string
  prevSendTimestamp :: real
  metricsMap :: "(string \<times> metric) list"

record StackMetric =
  metricName :: string
  count :: jsval

record createMetricDescriptorRequest =
  requestName :: string
  metricDescriptor :: metricDescriptor

datatype typedValue = Int64Value jsval | DoubleValue jsval | BoolValue jsval

record dataPoint =
  endTimeSeconds :: real
  pointValue :: typedValue

record timeSeriesEntry =
  metricType :: string
  metricLabels :: "(string \<times> string) list"
  resourceType :: string
  resourceLabels :: "(string \<times> string) list"
  points :: "dataPoint list"

record createTimeSeriesRequest =
  seriesName :: string
  timeSeries :: "timeSeriesEntry list"

text \<open>
  The monitoring client is external. One flush cycle sees it as three functions: the
  answers it gives in that cycle to each request. \<open>Inl\<close> is a rejected promise.
\<close>

record 'r client =
  projectPath :: "string \<Rightarrow> string"
  createMetricDescriptor :: "createMetricDescriptorRequest \<Rightarrow> error + metricDescriptor"
  createTimeSeries :: "createTimeSeriesRequest \<Rightarrow> error + 'r"

text \<open>The requests a flush cycle issues to the client, in order.\<close>

datatype call =
  CreateMetricDescriptor createMetricDescriptorRequest
| CreateTimeSeries createTimeSeriesRequest

section \<open>Constants\<close>

definition VALUE_TYPE_INT64 :: string where "VALUE_TYPE_INT64 = ''INT64''"
definition VALUE_TYPE_BOOL :: string where "VALUE_TYPE_BOOL = ''BOOL''"
definition VALUE_TYPE_DOUBLE :: string where "VALUE_TYPE_DOUBLE = ''DOUBLE''"

definition TYPE_INT64 :: string where "TYPE_INT64 = ''INT64''"
definition TYPE_BOOL :: string where "TYPE_BOOL = ''BOOL''"
definition TYPE_DOUBLE :: string where "TYPE_DOUBLE = ''DOUBLE''"
definition TYPE_RATE_PER_SECOND :: string where "TYPE_RATE_PER_SECOND = ''RATE_PER_SECOND''"
definition TYPE_RATE_PER_MINUTE :: string where "TYPE_RATE_PER_MINUTE = ''RATE_PER_MINUTE''"
definition TYPE_RATE_PER_HOUR :: string where "TYPE_RATE_PER_HOUR = ''RATE_PER_HOUR''"
definition TYPE_RATE_PER_DAY :: string where "TYPE_RATE_PER_DAY = ''RATE_PER_DAY''"

section \<open>The Map operations\<close>

fun map_get :: "(string \<times> 'a) list \<Rightarrow> string \<Rightarrow> 'a option" where
  "map_get [] k = None"
| "map_get ((k', v) # m) k = (if k' = k then Some v else map_get m k)"

text \<open>\<open>Map.set\<close>: an existing key keeps its position, a new key goes to the end.\<close>

fun map_set :: "(string \<times> 'a) list \<Rightarrow> string \<Rightarrow> 'a \<Rightarrow> (string \<times> 'a) list" where
  "map_set [] k v = [(k, v)]"
| "map_set ((k', v') # m) k v = (if k' = k then (k, v) # m else (k', v') # map_set m k v)"

definition map_values :: "(string \<times> 'a) list \<Rightarrow> 'a list" where
  "map_values m = map snd m"

text \<open>
  \<open>Array.from(map.values()).forEach(f)\<close> with an \<open>f\<close> that assigns fields of the
  object it is given: every stored object is replaced by its updated version.
\<close>

definition update_each :: "('a \<Rightarrow> 'a) \<Rightarrow> (string \<times> 'a) list \<Rightarrow> (string \<times> 'a) list" where
  "update_each f m = map (\<lambda>(k, v). (k, f v)) m"

text \<open>A rate interval used as a condition: \<open>undefined\<close> and \<open>0\<close> are falsy.\<close>

fun truthy :: "real option \<Rightarrow> bool" where
  "truthy None = False"
| "truthy (Some u) = (u \<noteq> 0)"

section \<open>Creating metrics\<close>

definition newStackMetrics :: "string \<Rightarrow> string \<Rightarrow> string \<Rightarrow> string \<Rightarrow> real \<Rightarrow> StackMetrics" where
  \<comment> \<open>The constructor; the last argument is the value of \<open>Date.now()\<close>.\<close>
  "newStackMetrics pid app env grp now =
     \<lparr>projectId = pid, appName = app, envName = env, metricGroupName = grp,
      prevSendTimestamp = now, metricsMap = []\<rparr>"

definition setStartTimestamp :: "StackMetrics \<Rightarrow> real \<Rightarrow> StackMetrics" where
  "setStartTimestamp st timestamp = st\<lparr>prevSendTimestamp := timestamp\<rparr>"

definition getValueTypeForMetricType :: "string \<Rightarrow> error + string" where
  "getValueTypeForMetricType mt =
     (if mt = TYPE_INT64 then Inr VALUE_TYPE_INT64
      else if mt = TYPE_BOOL then Inr VALUE_TYPE_BOOL
      else if mt = TYPE_DOUBLE then Inr VALUE_TYPE_DOUBLE
      else if mt = TYPE_RATE_PER_SECOND then Inr VALUE_TYPE_DOUBLE
      else if mt = TYPE_RATE_PER_MINUTE then Inr VALUE_TYPE_DOUBLE
      else if mt = TYPE_RATE_PER_HOUR then Inr VALUE_TYPE_DOUBLE
      else if mt = TYPE_RATE_PER_DAY then Inr VALUE_TYPE_DOUBLE
      else Inl (Error ''Unknown metricType''))"

definition getRateIntervalForMetricType :: "string \<Rightarrow> real option" where
  "getRateIntervalForMetricType mt =
     (if mt = TYPE_RATE_PER_SECOND then Some 1000
      else if mt = TYPE_RATE_PER_MINUTE then Some (1000 * 60)
      else if mt = TYPE_RATE_PER_HOUR then Some (1000 * 3600)
      else if mt = TYPE_RATE_PER_DAY then Some (1000 * 3600 * 24)
      else None)"

definition descriptorLabels :: "label list" where
  "descriptorLabels =
     [\<lparr>key = ''appName'', labelValueType = ''STRING'', labelDescription = ''Application name''\<rparr>,
      \<lparr>key = ''envName'', labelValueType = ''STRING'',
       labelDescription = ''Environment (prod, stage, ...)''\<rparr>]"

text \<open>
  \<open>createMetric\<close> returns what it throws or the new handle, and the instance afterwards.
  The value type is looked up twice, once for the descriptor and once for the record,
  both before \<open>metricsMap.set\<close> runs.
\<close>

definition createMetric ::
  "StackMetrics \<Rightarrow> string \<Rightarrow> string \<Rightarrow> string \<Rightarrow> (error + StackMetric) \<times> StackMetrics" where
  "createMetric st mname mdescription mtype =
     (let dname = (if metricGroupName st = appName st then appName st @ ''.'' @ mname else mname)
      in case getValueTypeForMetricType mtype of
           Inl e \<Rightarrow> (Inl e, st)
         | Inr dvt \<Rightarrow>
             (let descriptor =
                    \<lparr>description = mdescription, displayName = dname,
                     descType = ''custom.googleapis.com/'' @ metricGroupName st @ ''/'' @ mname,
                     metricKind = ''GAUGE'', descValueType = dvt, labels = descriptorLabels\<rparr>;
                  rateInt = getRateIntervalForMetricType mtype
              in case getValueTypeForMetricType mtype of
                   Inl e \<Rightarrow> (Inl e, st)
                 | Inr vt \<Rightarrow>
                     (Inr \<lparr>metricName = mname, count = Number 0\<rparr>,
                      st\<lparr>metricsMap :=
                           map_set (metricsMap st) mname
                             \<lparr>name = mname, valueType = vt, requestDescriptor = descriptor,
                              responseDescriptor = None, rateInterval = rateInt,
                              mvalue = (if rateInt \<noteq> None then Number 0 else Undefined)\<rparr>\<rparr>)))"

section \<open>Writing values\<close>

text \<open>
  \<open>writeMetric\<close> returns what it throws, if anything, and the instance afterwards.
  Reading \<open>rateInterval\<close> of the \<open>undefined\<close> that \<open>Map.get\<close> returns for an unknown
  name is a \<open>TypeError\<close>.
\<close>

definition writeMetric :: "StackMetrics \<Rightarrow> string \<Rightarrow> jsval \<Rightarrow> error option \<times> StackMetrics" where
  "writeMetric st mname v =
     (case map_get (metricsMap st) mname of
        None \<Rightarrow> (Some TypeError, st)
      | Some m \<Rightarrow>
          (if truthy (rateInterval m)
           then (None, st\<lparr>metricsMap :=
                            map_set (metricsMap st) mname (m\<lparr>mvalue := js_add (mvalue m) v\<rparr>)\<rparr>)
           else (None, st\<lparr>metricsMap := map_set (metricsMap st) mname (m\<lparr>mvalue := v\<rparr>)\<rparr>)))"

text \<open>
  The methods of a handle return what they throw, the handle afterwards and the instance
  afterwards. \<open>writeCount\<close> updates the handle before it calls \<open>writeMetric\<close>.
\<close>

definition writeCount ::
  "StackMetric \<Rightarrow> jsval \<Rightarrow> StackMetrics \<Rightarrow> error option \<times> StackMetric \<times> StackMetrics" where
  "writeCount h delta st =
     (let h' = h\<lparr>count := js_add (count h) delta\<rparr>;
          r = writeMetric st (metricName h') (count h')
      in (fst r, h', snd r))"

definition writeRate ::
  "StackMetric \<Rightarrow> jsval \<Rightarrow> StackMetrics \<Rightarrow> error option \<times> StackMetric \<times> StackMetrics" where
  "writeRate h delta st =
     (let r = writeMetric st (metricName h) delta in (fst r, h, snd r))"

definition write_value ::
  \<comment> \<open>The method \<open>write\<close> of the handle.\<close>
  "StackMetric \<Rightarrow> jsval \<Rightarrow> StackMetrics \<Rightarrow> error option \<times> StackMetric \<times> StackMetrics" where
  "write_value h v st =
     (let r = writeMetric st (metricName h) v in (fst r, h, snd r))"

text \<open>
  The second variant of the handle class in the repository: there \<open>writeRate\<close> keeps the
  running count and \<open>writeCount\<close> calls it.
\<close>

definition writeRate_v0 ::
  "StackMetric \<Rightarrow> jsval \<Rightarrow> StackMetrics \<Rightarrow> error option \<times> StackMetric \<times> StackMetrics" where
  "writeRate_v0 h delta st =
     (let h' = h\<lparr>count := js_add (count h) delta\<rparr>;
          r = writeMetric st (metricName h') (count h')
      in (fst r, h', snd r))"

definition writeCount_v0 ::
  "StackMetric \<Rightarrow> jsval \<Rightarrow> StackMetrics \<Rightarrow> error option \<times> StackMetric \<times> StackMetrics" where
  "writeCount_v0 h delta st = writeRate_v0 h delta st"

section \<open>The flush cycle\<close>

text \<open>
  A flush returns its outcome, the instance afterwards and the requests it issued.
  The cycle is modelled as one atomic step: no write is interleaved at the two points
  where the code awaits the client.
\<close>

text \<open>\<open>String.split\<close> on a one-character separator; the result is never empty.\<close>

fun split_on :: "char \<Rightarrow> string \<Rightarrow> string list" where
  "split_on c [] = [[]]"
| "split_on c (x # xs) =
     (if x = c then [] # split_on c xs
      else (case split_on c xs of [] \<Rightarrow> [[x]] | s # ss \<Rightarrow> (x # s) # ss))"

definition getMetricName :: "string \<Rightarrow> string" where
  "getMetricName t = last (split_on CHR ''/'' t)"

definition createMetricsRequest ::
  "'r client \<Rightarrow> StackMetrics \<Rightarrow> metricDescriptor \<Rightarrow> createMetricDescriptorRequest" where
  "createMetricsRequest cl st descriptor =
     \<lparr>requestName = projectPath cl (projectId st), metricDescriptor = descriptor\<rparr>"

text \<open>
  \<open>Promise.all\<close>: every promise has been created (every request issued) when it is
  awaited; it rejects when one of them does, here with the first rejection in list order.
\<close>

fun promise_all :: "(error + 'a) list \<Rightarrow> error + 'a list" where
  "promise_all [] = Inr []"
| "promise_all (Inl e # ps) = Inl e"
| "promise_all (Inr x # ps) = (case promise_all ps of Inl e \<Rightarrow> Inl e | Inr xs \<Rightarrow> Inr (x # xs))"

text \<open>
  The \<open>forEach\<close> over the responses: each names a metric by the last segment of its
  type. Assigning to a field of the \<open>undefined\<close> that \<open>Map.get\<close> returns for an unknown
  name is a \<open>TypeError\<close>, which leaves the earlier assignments in place.
\<close>

fun setResponseDescriptors ::
  "StackMetrics \<Rightarrow> metricDescriptor list \<Rightarrow> error option \<times> StackMetrics" where
  "setResponseDescriptors st [] = (None, st)"
| "setResponseDescriptors st (d # ds) =
     (case map_get (metricsMap st) (getMetricName (descType d)) of
        None \<Rightarrow> (Some TypeError, st)
      | Some m \<Rightarrow>
          setResponseDescriptors
            (st\<lparr>metricsMap := map_set (metricsMap st) (getMetricName (descType d))
                                (m\<lparr>responseDescriptor := Some d\<rparr>)\<rparr>) ds)"

definition pendingRequests ::
  "'r client \<Rightarrow> StackMetrics \<Rightarrow> createMetricDescriptorRequest list" where
  "pendingRequests cl st =
     map (\<lambda>m. createMetricsRequest cl st (requestDescriptor m))
         (filter (\<lambda>e. responseDescriptor e = None) (map_values (metricsMap st)))"

definition sendCreateMetrics ::
  "'r client \<Rightarrow> StackMetrics \<Rightarrow> real \<Rightarrow> error option \<times> StackMetrics \<times> call list" where
  "sendCreateMetrics cl st timestamp =
     (let reqs = pendingRequests cl st
      in case promise_all (map (createMetricDescriptor cl) reqs) of
           Inl e \<Rightarrow> (Some e, st, map CreateMetricDescriptor reqs)
         | Inr responses \<Rightarrow>
             (let r = setResponseDescriptors st responses
              in (fst r, snd r, map CreateMetricDescriptor reqs)))"

definition convertRate :: "real \<Rightarrow> real \<Rightarrow> metric \<Rightarrow> metric" where
  \<comment> \<open>The body of the first \<open>forEach\<close> of \<open>_sendTimeSeries\<close>, with its \<open>filter\<close>.\<close>
  "convertRate timestamp prev m =
     (case rateInterval m of
        None \<Rightarrow> m
      | Some u \<Rightarrow>
          (if u = 0 then m
           else (let d = timestamp - prev
                 in if d > 0 then m\<lparr>mvalue := js_mul (js_div (mvalue m) d) u\<rparr>
                    else m\<lparr>mvalue := Number 0\<rparr>)))"

definition createDataPoint :: "string \<Rightarrow> real \<Rightarrow> jsval \<Rightarrow> error + dataPoint" where
  "createDataPoint vt timestamp v =
     (if vt = VALUE_TYPE_INT64
      then Inr \<lparr>endTimeSeconds = timestamp / 1000, pointValue = Int64Value v\<rparr>
      else if vt = VALUE_TYPE_DOUBLE
      then Inr \<lparr>endTimeSeconds = timestamp / 1000, pointValue = DoubleValue v\<rparr>
      else if vt = VALUE_TYPE_BOOL
      then Inr \<lparr>endTimeSeconds = timestamp / 1000, pointValue = BoolValue v\<rparr>
      else Inl (Error ''Unexpected valueType:''))"

definition createTimeSeriesData ::
  "StackMetrics \<Rightarrow> real \<Rightarrow> metric \<Rightarrow> error + timeSeriesEntry" where
  "createTimeSeriesData st timestamp m =
     (case createDataPoint (valueType m) timestamp (mvalue m) of
        Inl e \<Rightarrow> Inl e
      | Inr p \<Rightarrow>
          Inr \<lparr>metricType = descType (requestDescriptor m),
               metricLabels = [(''appName'', appName st), (''envName'', envName st)],
               resourceType = ''global'',
               resourceLabels = [(''project_id'', projectId st)],
               points = [p]\<rparr>)"

text \<open>\<open>Array.map\<close> with a function that may throw: the first throw ends it.\<close>

fun map_throwing :: "('a \<Rightarrow> error + 'b) \<Rightarrow> 'a list \<Rightarrow> error + 'b list" where
  "map_throwing f [] = Inr []"
| "map_throwing f (x # xs) =
     (case f x of
        Inl e \<Rightarrow> Inl e
      | Inr y \<Rightarrow> (case map_throwing f xs of Inl e \<Rightarrow> Inl e | Inr ys \<Rightarrow> Inr (y # ys)))"

definition included :: "metric \<Rightarrow> bool" where
  \<comment> \<open>The \<open>filter\<close> that selects the metrics of a submission.\<close>
  "included m = (truthy (rateInterval m) \<or> mvalue m \<noteq> Undefined)"

definition clearValue :: "metric \<Rightarrow> metric" where
  \<comment> \<open>The reset after \<open>createTimeSeries\<close> has resolved.\<close>
  "clearValue m = (if truthy (rateInterval m) then m\<lparr>mvalue := Number 0\<rparr> else m\<lparr>mvalue := Undefined\<rparr>)"

text \<open>
  \<open>_sendTimeSeries\<close>. The outcome is \<open>Inl\<close> for a throw, \<open>Inr None\<close> when there was
  nothing to send and \<open>Inr (Some r)\<close> with the client's result otherwise.
\<close>

definition sendTimeSeries ::
  "'r client \<Rightarrow> StackMetrics \<Rightarrow> real \<Rightarrow> (error + 'r option) \<times> StackMetrics \<times> call list" where
  "sendTimeSeries cl st timestamp =
     (let st1 = st\<lparr>metricsMap :=
                    update_each (convertRate timestamp (prevSendTimestamp st)) (metricsMap st)\<rparr>;
          st2 = st1\<lparr>prevSendTimestamp := timestamp\<rparr>
      in case map_throwing (createTimeSeriesData st2 timestamp)
                (filter included (map_values (metricsMap st2))) of
           Inl e \<Rightarrow> (Inl e, st2, [])
         | Inr timeSeriesData \<Rightarrow>
             (let request = \<lparr>seriesName = projectPath cl (projectId st2),
                             timeSeries = timeSeriesData\<rparr>
              in if length timeSeriesData > 0
                 then (case createTimeSeries cl request of
                         Inr results \<Rightarrow>
                           (Inr (Some results),
                            st2\<lparr>metricsMap := update_each clearValue (metricsMap st2)\<rparr>,
                            [CreateTimeSeries request])
                       | Inl e \<Rightarrow> (Inl e, st2, [CreateTimeSeries request]))
                 else (Inr None, st2, [])))"

definition sendValues ::
  "'r client \<Rightarrow> StackMetrics \<Rightarrow> real \<Rightarrow> (error + 'r option) \<times> StackMetrics \<times> call list" where
  "sendValues cl st timestamp =
     (case sendCreateMetrics cl st timestamp of
        (Some e, st1, calls) \<Rightarrow> (Inl e, st1, calls)
      | (None, st1, calls) \<Rightarrow>
          (case sendTimeSeries cl st1 timestamp of
             (r, st2, calls') \<Rightarrow> (r, st2, calls @ calls')))"

text \<open>The parts of what a flush returns.\<close>

definition outcome :: "'a \<times> 'b \<times> 'c \<Rightarrow> 'a" where "outcome r = fst r"
definition state_after :: "'a \<times> 'b \<times> 'c \<Rightarrow> 'b" where "state_after r = fst (snd r)"
definition calls_of :: "'a \<times> 'b \<times> 'c \<Rightarrow> 'c" where "calls_of r = snd (snd r)"

section \<open>Notions used in the statements\<close>

definition carried :: "typedValue \<Rightarrow> jsval" where
  \<comment> \<open>The value a data point carries, whatever field it is in.\<close>
  "carried tv = (case tv of Int64Value v \<Rightarrow> v | DoubleValue v \<Rightarrow> v | BoolValue v \<Rightarrow> v)"

definition validValueType :: "metric \<Rightarrow> bool" where
  "validValueType m =
     (valueType m = VALUE_TYPE_INT64 \<or> valueType m = VALUE_TYPE_DOUBLE
      \<or> valueType m = VALUE_TYPE_BOOL)"

definition validValueTypes :: "StackMetrics \<Rightarrow> bool" where
  \<comment> \<open>Every stored metric has one of the three value types, as \<open>createMetric\<close> stores them.\<close>
  "validValueTypes st = list_all validValueType (map_values (metricsMap st))"

definition pendingNames :: "StackMetrics \<Rightarrow> string list" where
  \<comment> \<open>The keys of the metrics that have no response descriptor yet.\<close>
  "pendingNames st = map fst (filter (\<lambda>(k, m). responseDescriptor m = None) (metricsMap st))"

section \<open>Sequences of writes\<close>

text \<open>A handle's method called once for each element of a list, up to the first throw.\<close>

fun writeCounts ::
  "StackMetric \<Rightarrow> jsval list \<Rightarrow> StackMetrics \<Rightarrow> error option \<times> StackMetric \<times> StackMetrics" where
  "writeCounts h [] st = (None, h, st)"
| "writeCounts h (d # ds) st =
     (case writeCount h d st of
        (Some e, h', st') \<Rightarrow> (Some e, h', st')
      | (None, h', st') \<Rightarrow> writeCounts h' ds st')"

fun writeRates ::
  "StackMetric \<Rightarrow> jsval list \<Rightarrow> StackMetrics \<Rightarrow> error option \<times> StackMetric \<times> StackMetrics" where
  "writeRates h [] st = (None, h, st)"
| "writeRates h (d # ds) st =
     (case writeRate h d st of
        (Some e, h', st') \<Rightarrow> (Some e, h', st')
      | (None, h', st') \<Rightarrow> writeRates h' ds st')"

text \<open>The running totals of a counter that starts at \<open>c\<close> and receives the deltas in turn.\<close>

fun running_totals :: "real \<Rightarrow> real list \<Rightarrow> real list" where
  "running_totals c [] = []"
| "running_totals c (d # ds) = (c + d) # running_totals (c + d) ds"

definition accumulatedValue :: "StackMetrics \<Rightarrow> string \<Rightarrow> jsval option" where
  \<comment> \<open>The stored value of the metric of that name, if there is one.\<close>
  "accumulatedValue st mname = map_option mvalue (map_get (metricsMap st) mname)"

section \<open>Clients and instances used as examples\<close>

definition echoClient :: "unit client" where
  \<comment> \<open>Every request succeeds; a created descriptor is echoed.\<close>
  "echoClient =
     \<lparr>projectPath = (\<lambda>p. ''projects/'' @ p),
      createMetricDescriptor = (\<lambda>req. Inr (metricDescriptor req)),
      createTimeSeries = (\<lambda>req. Inr ())\<rparr>"

definition failingSubmitClient :: "unit client" where
  "failingSubmitClient =
     echoClient\<lparr>createTimeSeries := (\<lambda>req. Inl (BackendError ''unavailable''))\<rparr>"

definition failingRegisterClient :: "unit client" where
  "failingRegisterClient =
     echoClient\<lparr>createMetricDescriptor := (\<lambda>req. Inl (BackendError ''unavailable''))\<rparr>"

definition requestsInstance :: StackMetrics where
  \<comment> \<open>An instance with the single rate metric \<open>requests\<close>, created at time 0.\<close>
  "requestsInstance =
     snd (createMetric (newStackMetrics ''p'' ''app'' ''dev'' ''app'' 0)
            ''requests'' ''Requests'' TYPE_RATE_PER_SECOND)"

definition requestsHandle :: StackMetric where
  "requestsHandle = \<lparr>metricName = ''requests'', count = Number 0\<rparr>"

definition queueInstance :: StackMetrics where
  \<comment> \<open>An instance with the single gauge metric \<open>queueDepth\<close>.\<close>
  "queueInstance =
     snd (createMetric (newStackMetrics ''p'' ''app'' ''dev'' ''app'' 0)
            ''queueDepth'' ''Queue depth'' TYPE_INT64)"

definition requestsMetric :: metric where
  "requestsMetric =
     \<lparr>name = ''requests'', valueType = ''DOUBLE'',
      requestDescriptor =
        \<lparr>description = ''Requests'', displayName = ''app.requests'',
         descType = ''custom.googleapis.com/app/requests'', metricKind = ''GAUGE'',
         descValueType = ''DOUBLE'', labels = descriptorLabels\<rparr>,
      responseDescriptor = None, rateInterval = Some 1000, mvalue = Number 0\<rparr>"

definition queueMetric :: metric where
  "queueMetric =
     \<lparr>name = ''queueDepth'', valueType = ''INT64'',
      requestDescriptor =
        \<lparr>description = ''Queue depth'', displayName = ''app.queueDepth'',
         descType = ''custom.googleapis.com/app/queueDepth'', metricKind = ''GAUGE'',
         descValueType = ''INT64'', labels = descriptorLabels\<rparr>,
      responseDescriptor = None, rateInterval = None, mvalue = Undefined\<rparr>"

definition exampleInstance :: "(string \<times> metric) list \<Rightarrow> StackMetrics" where
  "exampleInstance ms =
     \<lparr>projectId = ''p'', appName = ''app'', envName = ''dev'', metricGroupName = ''app'',
      prevSendTimestamp = 0, metricsMap = ms\<rparr>"

definition requestsRegistration :: createMetricDescriptorRequest where
  \<comment> \<open>The registration request for \<open>requests\<close>.\<close>
  "requestsRegistration =
     \<lparr>requestName = ''projects/p'', metricDescriptor = requestDescriptor requestsMetric\<rparr>"

definition requestsSeriesAt :: "jsval \<Rightarrow> real \<Rightarrow> createTimeSeriesRequest" where
  \<comment> \<open>The submission of the value \<open>v\<close> for \<open>requests\<close> at the timestamp \<open>ts\<close>.\<close>
  "requestsSeriesAt v ts =
     \<lparr>seriesName = ''projects/p'',
      timeSeries =
        [\<lparr>metricType = ''custom.googleapis.com/app/requests'',
          metricLabels = [(''appName'', ''app''), (''envName'', ''dev'')],
          resourceType = ''global'', resourceLabels = [(''project_id'', ''p'')],
          points = [\<lparr>endTimeSeconds = ts / 1000, pointValue = DoubleValue v\<rparr>]\<rparr>]\<rparr>"

definition requestsWritten :: StackMetrics where
  \<comment> \<open>\<open>requests\<close> after the deltas 3 and 2 have been written.\<close>
  "requestsWritten = snd (snd (writeRates requestsHandle [Number 3, Number 2] requestsInstance))"

section \<open>Creating a metric of an unknown type\<close>

lemmas type_defs =
  VALUE_TYPE_INT64_def VALUE_TYPE_BOOL_def VALUE_TYPE_DOUBLE_def
  TYPE_INT64_def TYPE_BOOL_def TYPE_DOUBLE_def TYPE_RATE_PER_SECOND_def
  TYPE_RATE_PER_MINUTE_def TYPE_RATE_PER_HOUR_def TYPE_RATE_PER_DAY_def

lemma getValueTypeForMetricType_unknown:
  assumes "mt \<notin> {TYPE_INT64, TYPE_BOOL, TYPE_DOUBLE, TYPE_RATE_PER_SECOND,
                 TYPE_RATE_PER_MINUTE, TYPE_RATE_PER_HOUR, TYPE_RATE_PER_DAY}"
  shows "getValueTypeForMetricType mt = Inl (Error ''Unknown metricType'')"
  using assms by (simp add: getValueTypeForMetricType_def)

text \<open>
  Claim C10. \<open>createMetric\<close> with a metric type outside the seven known kinds throws
  (the value-type lookup throws \<open>Unknown metricType\<close>), returns no handle, and leaves the
  instance, its metrics map included, exactly as it was: no record is stored.
\<close>

theorem createMetric_unknown_type:
  assumes "mt \<notin> {TYPE_INT64, TYPE_BOOL, TYPE_DOUBLE, TYPE_RATE_PER_SECOND,
                 TYPE_RATE_PER_MINUTE, TYPE_RATE_PER_HOUR, TYPE_RATE_PER_DAY}"
  shows "createMetric st mname mdescription mt = (Inl (Error ''Unknown metricType''), st)"
  using getValueTypeForMetricType_unknown [OF assms]
  by (simp add: createMetric_def)

theorem createMetric_unknown_type_witness:
  "''HISTOGRAM'' \<notin> {TYPE_INT64, TYPE_BOOL, TYPE_DOUBLE, TYPE_RATE_PER_SECOND,
                    TYPE_RATE_PER_MINUTE, TYPE_RATE_PER_HOUR, TYPE_RATE_PER_DAY}
   \<and> createMetric (newStackMetrics ''p'' ''app'' ''dev'' ''app'' 0) ''latency'' ''d'' ''HISTOGRAM''
       = (Inl (Error ''Unknown metricType''), newStackMetrics ''p'' ''app'' ''dev'' ''app'' 0)
   \<and> metricsMap (snd (createMetric (newStackMetrics ''p'' ''app'' ''dev'' ''app'' 0)
                        ''latency'' ''d'' ''HISTOGRAM'')) = []"
proof -
  have h: "''HISTOGRAM'' \<notin> {TYPE_INT64, TYPE_BOOL, TYPE_DOUBLE, TYPE_RATE_PER_SECOND,
                    TYPE_RATE_PER_MINUTE, TYPE_RATE_PER_HOUR, TYPE_RATE_PER_DAY}"
    by (simp add: type_defs)
  show ?thesis
    using h createMetric_unknown_type [OF h, of "newStackMetrics ''p'' ''app'' ''dev'' ''app'' 0" "''latency''" "''d''"]
    by (simp add: newStackMetrics_def)
qed

section \<open>The example instances, evaluated\<close>

lemma requestsInstance_eq: "requestsInstance = exampleInstance [(''requests'', requestsMetric)]"
  by (simp add: requestsInstance_def createMetric_def newStackMetrics_def exampleInstance_def
      requestsMetric_def getValueTypeForMetricType_def getRateIntervalForMetricType_def type_defs)

lemma queueInstance_eq: "queueInstance = exampleInstance [(''queueDepth'', queueMetric)]"
  by (simp add: queueInstance_def createMetric_def newStackMetrics_def exampleInstance_def
      queueMetric_def getValueTypeForMetricType_def getRateIntervalForMetricType_def type_defs)

section \<open>The Map operations\<close>

lemma map_get_map_set: "map_get (map_set ms k v) k = Some v"
  by (induction ms) auto

lemma map_set_map_set: "map_set (map_set ms k v) k w = map_set ms k w"
  by (induction ms) auto

lemma map_set_same: "map_get ms k = Some v \<Longrightarrow> map_set ms k v = ms"
  by (induction ms) (auto split: if_splits)

section \<open>Writes\<close>

lemma writeMetric_rate:
  assumes "map_get (metricsMap st) n = Some m" and "truthy (rateInterval m)"
  shows "writeMetric st n v =
           (None, st\<lparr>metricsMap := map_set (metricsMap st) n (m\<lparr>mvalue := js_add (mvalue m) v\<rparr>)\<rparr>)"
  using assms by (simp add: writeMetric_def)

lemma writeMetric_gauge:
  assumes "map_get (metricsMap st) n = Some m" and "\<not> truthy (rateInterval m)"
  shows "writeMetric st n v = (None, st\<lparr>metricsMap := map_set (metricsMap st) n (m\<lparr>mvalue := v\<rparr>)\<rparr>)"
  using assms by (simp add: writeMetric_def)

lemma writeMetric_unknown:
  assumes "map_get (metricsMap st) n = None"
  shows "writeMetric st n v = (Some TypeError, st)"
  using assms by (simp add: writeMetric_def)

lemma writeCounts_rate:
  assumes "map_get (metricsMap st) (metricName h) = Some m" and "truthy (rateInterval m)"
    and "mvalue m = Number a" and "count h = Number c"
  shows "writeCounts h (map Number ds) st =
           (None, h\<lparr>count := Number (c + sum_list ds)\<rparr>,
            st\<lparr>metricsMap := map_set (metricsMap st) (metricName h)
                                (m\<lparr>mvalue := Number (a + sum_list (running_totals c ds))\<rparr>)\<rparr>)"
  using assms
proof (induction ds arbitrary: h st m a c)
  case Nil
  have "m\<lparr>mvalue := Number a\<rparr> = m" using Nil by simp
  moreover have "h\<lparr>count := Number c\<rparr> = h" using Nil by simp
  ultimately show ?case using Nil by (simp add: map_set_same)
next
  case (Cons d ds)
  let ?h = "h\<lparr>count := Number (c + d)\<rparr>"
  let ?m = "m\<lparr>mvalue := Number (a + (c + d))\<rparr>"
  let ?st = "st\<lparr>metricsMap := map_set (metricsMap st) (metricName h) ?m\<rparr>"
  have step: "writeCount h (Number d) st = (None, ?h, ?st)"
    using Cons.prems by (simp add: writeCount_def Let_def writeMetric_rate js_add_def)
  have "writeCounts ?h (map Number ds) ?st =
          (None, ?h\<lparr>count := Number ((c + d) + sum_list ds)\<rparr>,
           ?st\<lparr>metricsMap := map_set (metricsMap ?st) (metricName ?h)
                  (?m\<lparr>mvalue := Number ((a + (c + d)) + sum_list (running_totals (c + d) ds))\<rparr>)\<rparr>)"
    by (rule Cons.IH) (use Cons.prems in \<open>simp_all add: map_get_map_set\<close>)
  then show ?case using step by (simp add: add.assoc map_set_map_set)
qed

lemma writeRates_rate:
  assumes "map_get (metricsMap st) (metricName h) = Some m" and "truthy (rateInterval m)"
    and "mvalue m = Number a"
  shows "writeRates h (map Number ds) st =
           (None, h,
            st\<lparr>metricsMap := map_set (metricsMap st) (metricName h)
                                (m\<lparr>mvalue := Number (a + sum_list ds)\<rparr>)\<rparr>)"
  using assms
proof (induction ds arbitrary: st m a)
  case Nil
  have "m\<lparr>mvalue := Number a\<rparr> = m" using Nil by simp
  then show ?case using Nil by (simp add: map_set_same)
next
  case (Cons d ds)
  let ?m = "m\<lparr>mvalue := Number (a + d)\<rparr>"
  let ?st = "st\<lparr>metricsMap := map_set (metricsMap st) (metricName h) ?m\<rparr>"
  have step: "writeRate h (Number d) st = (None, h, ?st)"
    using Cons.prems by (simp add: writeRate_def Let_def writeMetric_rate js_add_def)
  have "writeRates h (map Number ds) ?st =
          (None, h,
           ?st\<lparr>metricsMap := map_set (metricsMap ?st) (metricName h)
                  (?m\<lparr>mvalue := Number ((a + d) + sum_list ds)\<rparr>)\<rparr>)"
    by (rule Cons.IH) (use Cons.prems in \<open>simp_all add: map_get_map_set\<close>)
  then show ?case using step by (simp add: add.assoc map_set_map_set)
qed

lemma accumulatedValue_map_set:
  "accumulatedValue (st\<lparr>metricsMap := map_set ms k m\<rparr>) k = Some (mvalue m)"
  by (simp add: accumulatedValue_def map_get_map_set)

text \<open>
  Claim C2, as stated, fails: two calls \<open>writeCount(1)\<close> on a fresh handle of the rate
  metric \<open>requests\<close> raise its accumulator by \<open>1 + 2 = 3\<close>, the sum of the running
  totals, not by \<open>1 + 1 = 2\<close>.
\<close>

theorem writeCount_forwards_delta_counterexample:
  "accumulatedValue requestsInstance ''requests'' = Some (Number 0)
   \<and> accumulatedValue
        (snd (snd (writeCounts requestsHandle [Number 1, Number 1] requestsInstance)))
        ''requests'' = Some (Number 3)
   \<and> Number 3 \<noteq> Number (0 + (1 + 1))"
  by (simp add: requestsInstance_eq exampleInstance_def requestsMetric_def requestsHandle_def
      writeCount_def writeMetric_def js_add_def accumulatedValue_def Let_def)

text \<open>
  Claim C2, amended. Each call of \<open>writeCount\<close> adds the delta to the running count of
  the handle and forwards the running count, not the delta, to \<open>writeMetric\<close>. So after
  calls with the deltas \<open>ds\<close> on a handle whose count was \<open>c\<close>, a rate metric's
  accumulator has grown by the sum of the running totals. It is \<open>writeRate\<close> that
  forwards the delta itself: after calls of \<open>writeRate\<close> with the deltas \<open>ds\<close> the
  accumulator has grown by their sum. The other variant of the handle class forwards
  the running count from \<open>writeCount\<close> as well.
\<close>

theorem writeCount_forwards_running_total:
  assumes "map_get (metricsMap st) (metricName h) = Some m" and "truthy (rateInterval m)"
    and "mvalue m = Number a" and "count h = Number c"
  shows "writeCount h delta st =
           (fst (writeMetric st (metricName h) (js_add (count h) delta)),
            h\<lparr>count := js_add (count h) delta\<rparr>,
            snd (writeMetric st (metricName h) (js_add (count h) delta)))
         \<and> writeCount_v0 h delta st = writeCount h delta st
         \<and> count (fst (snd (writeCounts h (map Number ds) st))) = Number (c + sum_list ds)
         \<and> accumulatedValue (snd (snd (writeCounts h (map Number ds) st))) (metricName h)
             = Some (Number (a + sum_list (running_totals c ds)))
         \<and> accumulatedValue (snd (snd (writeRates h (map Number ds) st))) (metricName h)
             = Some (Number (a + sum_list ds))"
proof -
  have "writeCount h delta st =
           (fst (writeMetric st (metricName h) (js_add (count h) delta)),
            h\<lparr>count := js_add (count h) delta\<rparr>,
            snd (writeMetric st (metricName h) (js_add (count h) delta)))"
    by (simp add: writeCount_def Let_def)
  moreover have "writeCount_v0 h delta st = writeCount h delta st"
    by (simp add: writeCount_v0_def writeRate_v0_def writeCount_def)
  moreover have "count (fst (snd (writeCounts h (map Number ds) st))) = Number (c + sum_list ds)"
    by (simp add: writeCounts_rate [OF assms])
  moreover have "accumulatedValue (snd (snd (writeCounts h (map Number ds) st))) (metricName h)
             = Some (Number (a + sum_list (running_totals c ds)))"
    by (simp add: writeCounts_rate [OF assms] accumulatedValue_map_set)
  moreover have "accumulatedValue (snd (snd (writeRates h (map Number ds) st))) (metricName h)
             = Some (Number (a + sum_list ds))"
    by (simp add: writeRates_rate [OF assms(1-3)] accumulatedValue_map_set)
  ultimately show ?thesis by blast
qed

theorem writeCount_forwards_running_total_witness:
  "map_get (metricsMap requestsInstance) (metricName requestsHandle) = Some requestsMetric
   \<and> truthy (rateInterval requestsMetric)
   \<and> mvalue requestsMetric = Number 0 \<and> count requestsHandle = Number 0
   \<and> accumulatedValue
        (snd (snd (writeCounts requestsHandle (map Number [3, 2]) requestsInstance)))
        ''requests'' = Some (Number 8)
   \<and> accumulatedValue
        (snd (snd (writeRates requestsHandle (map Number [3, 2]) requestsInstance)))
        ''requests'' = Some (Number 5)"
proof -
  have h1: "map_get (metricsMap requestsInstance) (metricName requestsHandle) = Some requestsMetric"
    by (simp add: requestsInstance_eq exampleInstance_def requestsHandle_def)
  have h2: "truthy (rateInterval requestsMetric)" by (simp add: requestsMetric_def)
  have h3: "mvalue requestsMetric = Number 0" by (simp add: requestsMetric_def)
  have h4: "count requestsHandle = Number 0" by (simp add: requestsHandle_def)
  have n: "metricName requestsHandle = ''requests''" by (simp add: requestsHandle_def)
  show ?thesis
    using h1 h2 h3 h4 writeCount_forwards_running_total [OF h1 h2 h3 h4, of "Number 0" "[3, 2]"]
    by (simp add: n)
qed

text \<open>
  Claim C5, as stated, fails: there is no check of the kind. A gauge-style \<open>write\<close> on
  the handle of the rate metric \<open>requests\<close> throws nothing and changes the accumulator.
\<close>

theorem gauge_write_to_rate_metric_counterexample:
  "fst (write_value requestsHandle (Number 7) requestsInstance) = None
   \<and> accumulatedValue requestsInstance ''requests'' = Some (Number 0)
   \<and> accumulatedValue (snd (snd (write_value requestsHandle (Number 7) requestsInstance)))
        ''requests'' = Some (Number 7)"
  by (simp add: requestsInstance_eq exampleInstance_def requestsMetric_def requestsHandle_def
      write_value_def writeMetric_def js_add_def accumulatedValue_def Let_def)

text \<open>
  Claim C5, amended. A write naming a metric that was never created throws at once
  (a \<open>TypeError\<close>: there is no \<open>UnknownMetricError\<close>) and leaves the instance as it was.
  A write to a metric that exists never throws, whatever the kind of the metric and
  the method used: \<open>write\<close> and \<open>writeRate\<close> do the same, adding the value to the
  accumulator of a rate metric and replacing the accumulator of any other metric.
\<close>

theorem write_unknown_throws_known_succeeds:
  "(map_get (metricsMap st) (metricName h) = None \<longrightarrow>
      writeMetric st (metricName h) v = (Some TypeError, st)
      \<and> write_value h v st = (Some TypeError, h, st)
      \<and> writeRate h v st = (Some TypeError, h, st))
   \<and> (\<forall>m. map_get (metricsMap st) (metricName h) = Some m \<longrightarrow>
        fst (write_value h v st) = None
        \<and> writeRate h v st = write_value h v st
        \<and> accumulatedValue (snd (snd (write_value h v st))) (metricName h)
            = Some (if truthy (rateInterval m) then js_add (mvalue m) v else v))"
proof (intro conjI impI allI)
  assume u: "map_get (metricsMap st) (metricName h) = None"
  show "writeMetric st (metricName h) v = (Some TypeError, st)"
    by (rule writeMetric_unknown [OF u])
  then show "write_value h v st = (Some TypeError, h, st)"
    by (simp add: write_value_def)
  show "writeRate h v st = (Some TypeError, h, st)"
    by (simp add: writeRate_def writeMetric_unknown [OF u])
next
  fix m assume k: "map_get (metricsMap st) (metricName h) = Some m"
  show "fst (write_value h v st) = None"
    using k by (simp add: write_value_def writeMetric_def)
  show "writeRate h v st = write_value h v st"
    by (simp add: write_value_def writeRate_def)
  show "accumulatedValue (snd (snd (write_value h v st))) (metricName h)
          = Some (if truthy (rateInterval m) then js_add (mvalue m) v else v)"
    using k by (simp add: write_value_def writeMetric_def accumulatedValue_map_set)
qed

theorem write_unknown_throws_known_succeeds_witness:
  "map_get (metricsMap queueInstance) (metricName requestsHandle) = None
   \<and> write_value requestsHandle (Number 4) queueInstance = (Some TypeError, requestsHandle, queueInstance)
   \<and> map_get (metricsMap requestsInstance) (metricName requestsHandle) = Some requestsMetric
   \<and> fst (write_value requestsHandle (Number 4) requestsInstance) = None
   \<and> accumulatedValue (snd (snd (write_value requestsHandle (Number 4) requestsInstance)))
        (metricName requestsHandle) = Some (Number 4)"
proof -
  have h1: "map_get (metricsMap queueInstance) (metricName requestsHandle) = None"
    by (simp add: queueInstance_eq exampleInstance_def requestsHandle_def)
  have h2: "map_get (metricsMap requestsInstance) (metricName requestsHandle) = Some requestsMetric"
    by (simp add: requestsInstance_eq exampleInstance_def requestsHandle_def)
  have v: "(if truthy (rateInterval requestsMetric) then js_add (mvalue requestsMetric) (Number 4)
            else Number 4) = Number 4"
    by (simp add: requestsMetric_def js_add_def)
  show ?thesis
    using h1 h2 v
      write_unknown_throws_known_succeeds [of queueInstance requestsHandle "Number 4"]
      write_unknown_throws_known_succeeds [of requestsInstance requestsHandle "Number 4"]
    by simp
qed

section \<open>The flush cycle: what it changes\<close>

lemma sendTimeSeries_prev: "prevSendTimestamp (state_after (sendTimeSeries cl st ts)) = ts"
  by (simp add: sendTimeSeries_def state_after_def Let_def split: sum.splits)

lemma sendValues_unfold:
  "sendValues cl st ts =
     (case fst (sendCreateMetrics cl st ts) of
        Some e \<Rightarrow> (Inl e, state_after (sendCreateMetrics cl st ts), calls_of (sendCreateMetrics cl st ts))
      | None \<Rightarrow> (outcome (sendTimeSeries cl (state_after (sendCreateMetrics cl st ts)) ts),
                  state_after (sendTimeSeries cl (state_after (sendCreateMetrics cl st ts)) ts),
                  calls_of (sendCreateMetrics cl st ts) @ calls_of (sendTimeSeries cl (state_after (sendCreateMetrics cl st ts)) ts)))"
  by (simp add: sendValues_def state_after_def calls_of_def outcome_def split: prod.splits option.splits)

lemma convertRate_rateInterval: "rateInterval (convertRate ts p m) = rateInterval m"
  by (simp add: convertRate_def Let_def split: option.splits)

lemma clearValue_rateInterval: "rateInterval (clearValue m) = rateInterval m"
  by (simp add: clearValue_def)

lemma clearValue_value: "mvalue (clearValue m) = (if truthy (rateInterval m) then Number 0 else Undefined)"
  by (simp add: clearValue_def)

lemma sendTimeSeries_success_state:
  assumes "outcome (sendTimeSeries cl st ts) = Inr (Some r)"
  shows "metricsMap (state_after (sendTimeSeries cl st ts)) =
         update_each clearValue (update_each (convertRate ts (prevSendTimestamp st)) (metricsMap st))"
  using assms
  by (auto simp add: sendTimeSeries_def state_after_def outcome_def Let_def split: sum.splits if_splits)

lemma sendTimeSeries_reset:
  assumes "outcome (sendTimeSeries cl st ts) = Inr (Some r)"
    and "(k, m) \<in> set (metricsMap (state_after (sendTimeSeries cl st ts)))"
  shows "mvalue m = (if truthy (rateInterval m) then Number 0 else Undefined)"
  using assms(2) unfolding sendTimeSeries_success_state [OF assms(1)]
  by (auto simp: update_each_def clearValue_value clearValue_rateInterval)

lemma sendTimeSeries_keys:
  "map (\<lambda>(k, m). (k, rateInterval m)) (metricsMap (state_after (sendTimeSeries cl st ts)))
     = map (\<lambda>(k, m). (k, rateInterval m)) (metricsMap st)"
  by (auto simp add: sendTimeSeries_def state_after_def Let_def update_each_def
      convertRate_rateInterval clearValue_rateInterval split: sum.splits)

lemma sendTimeSeries_failure_state:
  assumes "outcome (sendTimeSeries cl st ts) = Inl e"
  shows "metricsMap (state_after (sendTimeSeries cl st ts)) =
         update_each (convertRate ts (prevSendTimestamp st)) (metricsMap st)"
  using assms
  by (auto simp add: sendTimeSeries_def state_after_def outcome_def Let_def split: sum.splits if_splits)

text \<open>Registration changes nothing but response descriptors.\<close>

lemma map_set_erase:
  "map_get ms k = Some m \<Longrightarrow>
   map (\<lambda>(k, m). (k, m\<lparr>responseDescriptor := None\<rparr>)) (map_set ms k (m\<lparr>responseDescriptor := x\<rparr>))
     = map (\<lambda>(k, m). (k, m\<lparr>responseDescriptor := None\<rparr>)) ms"
  by (induction ms) (auto split: if_splits)

lemma setResponseDescriptors_frame:
  "map (\<lambda>(k, m). (k, m\<lparr>responseDescriptor := None\<rparr>)) (metricsMap (snd (setResponseDescriptors st ds)))
     = map (\<lambda>(k, m). (k, m\<lparr>responseDescriptor := None\<rparr>)) (metricsMap st)
   \<and> snd (setResponseDescriptors st ds) = st\<lparr>metricsMap := metricsMap (snd (setResponseDescriptors st ds))\<rparr>"
proof (induction ds arbitrary: st)
  case Nil
  show ?case by simp
next
  case (Cons d ds)
  show ?case
  proof (cases "map_get (metricsMap st) (getMetricName (descType d))")
    case None
    then show ?thesis by simp
  next
    case (Some m)
    let ?st = "st\<lparr>metricsMap := map_set (metricsMap st) (getMetricName (descType d))
                                (m\<lparr>responseDescriptor := Some d\<rparr>)\<rparr>"
    have "snd (setResponseDescriptors st (d # ds)) = snd (setResponseDescriptors ?st ds)"
      using Some by simp
    moreover note Cons.IH [of ?st]
    ultimately show ?thesis using map_set_erase [OF Some, of "Some d"] by simp
  qed
qed

lemma sendCreateMetrics_frame:
  "map (\<lambda>(k, m). (k, m\<lparr>responseDescriptor := None\<rparr>)) (metricsMap (state_after (sendCreateMetrics cl st ts)))
     = map (\<lambda>(k, m). (k, m\<lparr>responseDescriptor := None\<rparr>)) (metricsMap st)"
  using setResponseDescriptors_frame
  by (simp add: sendCreateMetrics_def state_after_def Let_def split: sum.splits)

lemma erase_keys:
  fixes ms ms' :: "(string \<times> metric) list"
  assumes "map (\<lambda>(k, m). (k, m\<lparr>responseDescriptor := None\<rparr>)) ms' = map (\<lambda>(k, m). (k, m\<lparr>responseDescriptor := None\<rparr>)) ms"
  shows "map (\<lambda>(k, m). (k, rateInterval m)) ms' = map (\<lambda>(k, m). (k, rateInterval m)) ms"
proof -
  have "map (\<lambda>(k, m). (k, rateInterval m)) xs
        = map (\<lambda>(k, m). (k, rateInterval m)) (map (\<lambda>(k, m). (k, m\<lparr>responseDescriptor := None\<rparr>)) xs)" for xs :: "(string \<times> metric) list"
    by (simp add: case_prod_beta)
  from this [of ms'] this [of ms] assms show ?thesis by simp
qed

lemma sendCreateMetrics_failure:
  assumes "req \<in> set (pendingRequests cl st)" and "createMetricDescriptor cl req = Inl e"
  shows "\<exists>e'. sendCreateMetrics cl st ts = (Some e', st, map CreateMetricDescriptor (pendingRequests cl st))"
proof -
  have "\<exists>e'. promise_all (map f xs) = Inl e'" if "x \<in> set xs" "f x = Inl e" for f :: "createMetricDescriptorRequest \<Rightarrow> error + metricDescriptor" and xs x
    using that
  proof (induction xs)
    case Nil then show ?case by simp
  next
    case (Cons y ys)
    then show ?case by (cases "f y") (auto split: sum.splits)
  qed
  from this [of req "pendingRequests cl st" "createMetricDescriptor cl", OF assms] obtain e' where
    "promise_all (map (createMetricDescriptor cl) (pendingRequests cl st)) = Inl e'" by blast
  then show ?thesis by (simp add: sendCreateMetrics_def Let_def)
qed

lemma sendCreateMetrics_calls:
  "calls_of (sendCreateMetrics cl st ts) = map CreateMetricDescriptor (pendingRequests cl st)"
  by (simp add: sendCreateMetrics_def calls_of_def Let_def split: sum.splits)

lemma sendCreateMetrics_state:
  "state_after (sendCreateMetrics cl st ts)
     = st\<lparr>metricsMap := metricsMap (state_after (sendCreateMetrics cl st ts))\<rparr>"
proof (cases "promise_all (map (createMetricDescriptor cl) (pendingRequests cl st))")
  case (Inl e)
  then show ?thesis by (simp add: sendCreateMetrics_def state_after_def Let_def)
next
  case (Inr ds)
  then have "state_after (sendCreateMetrics cl st ts) = snd (setResponseDescriptors st ds)"
    by (simp add: sendCreateMetrics_def state_after_def Let_def)
  then show ?thesis using setResponseDescriptors_frame [of st ds] by simp
qed

lemma sendCreateMetrics_prev:
  "prevSendTimestamp (state_after (sendCreateMetrics cl st ts)) = prevSendTimestamp st"
  by (subst sendCreateMetrics_state) simp

lemma sendCreateMetrics_projectId:
  "projectId (state_after (sendCreateMetrics cl st ts)) = projectId st"
  by (subst sendCreateMetrics_state) simp

lemma erased_member:
  fixes ms ms' :: "(string \<times> metric) list"
  assumes "map (\<lambda>(k, m). (k, m\<lparr>responseDescriptor := None\<rparr>)) ms'
           = map (\<lambda>(k, m). (k, m\<lparr>responseDescriptor := None\<rparr>)) ms"
    and "(k, m) \<in> set ms"
  shows "\<exists>m'. (k, m') \<in> set ms' \<and> m'\<lparr>responseDescriptor := None\<rparr> = m\<lparr>responseDescriptor := None\<rparr>"
proof -
  have "(k, m\<lparr>responseDescriptor := None\<rparr>) \<in> set (map (\<lambda>(k, m). (k, m\<lparr>responseDescriptor := None\<rparr>)) ms)"
    using assms(2) by force
  then have "(k, m\<lparr>responseDescriptor := None\<rparr>) \<in> set (map (\<lambda>(k, m). (k, m\<lparr>responseDescriptor := None\<rparr>)) ms')"
    using assms(1) by simp
  then show ?thesis by auto
qed

lemma erased_fields:
  fixes m m' :: metric
  assumes "m'\<lparr>responseDescriptor := None\<rparr> = m\<lparr>responseDescriptor := None\<rparr>"
  shows "rateInterval m' = rateInterval m" and "mvalue m' = mvalue m"
    and "requestDescriptor m' = requestDescriptor m" and "valueType m' = valueType m"
proof -
  have "rateInterval (m'\<lparr>responseDescriptor := None\<rparr>) = rateInterval (m\<lparr>responseDescriptor := None\<rparr>)"
    using assms by simp
  then show "rateInterval m' = rateInterval m" by simp
  have "mvalue (m'\<lparr>responseDescriptor := None\<rparr>) = mvalue (m\<lparr>responseDescriptor := None\<rparr>)"
    using assms by simp
  then show "mvalue m' = mvalue m" by simp
  have "requestDescriptor (m'\<lparr>responseDescriptor := None\<rparr>) = requestDescriptor (m\<lparr>responseDescriptor := None\<rparr>)"
    using assms by simp
  then show "requestDescriptor m' = requestDescriptor m" by simp
  have "valueType (m'\<lparr>responseDescriptor := None\<rparr>) = valueType (m\<lparr>responseDescriptor := None\<rparr>)"
    using assms by simp
  then show "valueType m' = valueType m" by simp
qed

section \<open>The flush cycle: what it submits\<close>

lemma map_throwing_Inr:
  "map_throwing f xs = Inr ys \<Longrightarrow> list_all2 (\<lambda>x y. f x = Inr y) xs ys"
proof (induction xs arbitrary: ys)
  case Nil
  then show ?case by simp
next
  case (Cons x xs)
  then show ?case by (auto split: sum.splits)
qed

lemma map_throwing_total:
  "(\<And>x. x \<in> set xs \<Longrightarrow> \<exists>y. f x = Inr y) \<Longrightarrow> \<exists>ys. map_throwing f xs = Inr ys"
proof (induction xs)
  case Nil
  then show ?case by simp
next
  case (Cons x xs)
  obtain y where y: "f x = Inr y" using Cons.prems [of x] by auto
  obtain ys where "map_throwing f xs = Inr ys" using Cons by auto
  with y show ?case by simp
qed

lemma createTimeSeriesData_valid:
  "validValueType m \<Longrightarrow> \<exists>e. createTimeSeriesData st ts m = Inr e"
  by (auto simp add: validValueType_def createTimeSeriesData_def createDataPoint_def)

lemma createTimeSeriesData_Inr:
  assumes "createTimeSeriesData st ts m = Inr e"
  shows "metricType e = descType (requestDescriptor m)
         \<and> map (carried \<circ> pointValue) (points e) = [mvalue m]"
  using assms
  by (auto simp add: createTimeSeriesData_def createDataPoint_def carried_def
      split: sum.splits if_splits)

lemma convertRate_fields:
  "valueType (convertRate ts p m) = valueType m"
  "requestDescriptor (convertRate ts p m) = requestDescriptor m"
  "included (convertRate ts p m) = included m"
  by (simp_all add: convertRate_def included_def Let_def split: option.splits)

lemma convertRate_rate:
  assumes "rateInterval m = Some u" and "u \<noteq> 0"
  shows "mvalue (convertRate ts p m) =
           (if ts - p > 0 then js_mul (js_div (mvalue m) (ts - p)) u else Number 0)"
  using assms by (simp add: convertRate_def Let_def)

lemma convertRate_gauge:
  assumes "\<not> truthy (rateInterval m)"
  shows "convertRate ts p m = m"
  using assms by (cases "rateInterval m") (simp_all add: convertRate_def Let_def)

lemma sendTimeSeries_calls_Inr:
  assumes "map_throwing
             (createTimeSeriesData
                (st\<lparr>metricsMap := update_each (convertRate ts (prevSendTimestamp st)) (metricsMap st),
                    prevSendTimestamp := ts\<rparr>) ts)
             (filter included
                (map_values (update_each (convertRate ts (prevSendTimestamp st)) (metricsMap st))))
           = Inr es"
  shows "calls_of (sendTimeSeries cl st ts) =
           (if es = [] then []
            else [CreateTimeSeries \<lparr>seriesName = projectPath cl (projectId st), timeSeries = es\<rparr>])"
    and "es = [] \<Longrightarrow> outcome (sendTimeSeries cl st ts) = Inr None"
  using assms
  by (auto simp add: sendTimeSeries_def calls_of_def outcome_def Let_def split: sum.splits)

lemma sendTimeSeries_calls_Inl:
  assumes "map_throwing
             (createTimeSeriesData
                (st\<lparr>metricsMap := update_each (convertRate ts (prevSendTimestamp st)) (metricsMap st),
                    prevSendTimestamp := ts\<rparr>) ts)
             (filter included
                (map_values (update_each (convertRate ts (prevSendTimestamp st)) (metricsMap st))))
           = Inl e"
  shows "calls_of (sendTimeSeries cl st ts) = []"
  using assms
  by (auto simp add: sendTimeSeries_def calls_of_def outcome_def Let_def split: sum.splits)

lemma map_values_update_each: "map_values (update_each f ms) = map f (map_values ms)"
  by (simp add: map_values_def update_each_def case_prod_beta)

lemma filter_included_converted:
  "filter included (map (convertRate ts p) ms) = map (convertRate ts p) (filter included ms)"
  by (induction ms) (simp_all add: convertRate_fields)

lemma sendTimeSeries_submitted:
  assumes "CreateTimeSeries req \<in> set (calls_of (sendTimeSeries cl st ts))"
  shows "list_all2 (\<lambda>m e. createTimeSeriesData
                (st\<lparr>metricsMap := update_each (convertRate ts (prevSendTimestamp st)) (metricsMap st),
                    prevSendTimestamp := ts\<rparr>) ts (convertRate ts (prevSendTimestamp st) m) = Inr e)
           (filter included (map_values (metricsMap st))) (timeSeries req)"
proof -
  let ?st2 = "st\<lparr>metricsMap := update_each (convertRate ts (prevSendTimestamp st)) (metricsMap st),
                    prevSendTimestamp := ts\<rparr>"
  let ?xs = "filter included (map_values (update_each (convertRate ts (prevSendTimestamp st)) (metricsMap st)))"
  show ?thesis
  proof (cases "map_throwing (createTimeSeriesData ?st2 ts) ?xs")
    case (Inl e)
    from sendTimeSeries_calls_Inl [OF Inl, of cl] assms show ?thesis by simp
  next
    case (Inr es)
    from sendTimeSeries_calls_Inr(1) [OF Inr, of cl] assms have "timeSeries req = es"
      by (auto split: if_splits)
    with map_throwing_Inr [OF Inr] show ?thesis
      by (simp add: map_values_update_each filter_included_converted list_all2_map1)
  qed
qed

lemma list_all2_memD:
  "list_all2 P xs ys \<Longrightarrow> x \<in> set xs \<Longrightarrow> \<exists>y \<in> set ys. P x y"
  by (induction rule: list_all2_induct) auto

lemma rate_value_in_sendTimeSeries:
  assumes "CreateTimeSeries req \<in> set (calls_of (sendTimeSeries cl st ts))"
    and "(k, m) \<in> set (metricsMap st)" and "rateInterval m = Some u" and "u \<noteq> 0"
  shows "\<exists>e \<in> set (timeSeries req).
           metricType e = descType (requestDescriptor m)
           \<and> map (carried \<circ> pointValue) (points e) =
               [if ts - prevSendTimestamp st > 0
                then js_mul (js_div (mvalue m) (ts - prevSendTimestamp st)) u else Number 0]"
proof -
  have "m \<in> set (filter included (map_values (metricsMap st)))"
    using assms(2-4) by (force simp add: map_values_def included_def)
  from list_all2_memD [OF sendTimeSeries_submitted [OF assms(1)] this]
  obtain e where e: "e \<in> set (timeSeries req)"
    and "createTimeSeriesData
                (st\<lparr>metricsMap := update_each (convertRate ts (prevSendTimestamp st)) (metricsMap st),
                    prevSendTimestamp := ts\<rparr>) ts (convertRate ts (prevSendTimestamp st) m) = Inr e"
    by blast
  from createTimeSeriesData_Inr [OF this(2)] e show ?thesis
    by (auto simp add: convertRate_fields convertRate_rate [OF assms(3,4)])
qed

lemma list_all2_map_eq:
  "list_all2 P xs ys \<Longrightarrow> (\<And>x y. P x y \<Longrightarrow> g y = f x) \<Longrightarrow> map g ys = map f xs"
  by (induction rule: list_all2_induct) auto

lemma list_all2_all_right:
  "list_all2 P xs ys \<Longrightarrow> (\<And>x y. P x y \<Longrightarrow> Q y) \<Longrightarrow> \<forall>y \<in> set ys. Q y"
  by (induction rule: list_all2_induct) auto

section \<open>Stored value types stay valid\<close>

lemma list_all_map_set:
  "list_all P (map snd ms) \<Longrightarrow> P v \<Longrightarrow> list_all P (map snd (map_set ms k v))"
  by (induction ms) auto

lemma map_get_member: "map_get ms k = Some v \<Longrightarrow> (k, v) \<in> set ms"
  by (induction ms) (auto split: if_splits)

lemma validValueTypes_new: "validValueTypes (newStackMetrics pid app env grp now)"
  by (simp add: validValueTypes_def newStackMetrics_def map_values_def)

lemma validValueTypes_createMetric:
  assumes "validValueTypes st"
  shows "validValueTypes (snd (createMetric st n d t))"
proof (cases "getValueTypeForMetricType t")
  case (Inl e)
  then show ?thesis using assms by (simp add: createMetric_def)
next
  case (Inr vt)
  then have "vt = VALUE_TYPE_INT64 \<or> vt = VALUE_TYPE_DOUBLE \<or> vt = VALUE_TYPE_BOOL"
    by (auto simp add: getValueTypeForMetricType_def split: if_splits)
  then show ?thesis using assms Inr
    by (simp add: createMetric_def validValueTypes_def map_values_def Let_def
        list_all_map_set validValueType_def)
qed

lemma validValueTypes_writeMetric:
  assumes "validValueTypes st"
  shows "validValueTypes (snd (writeMetric st n v))"
proof (cases "map_get (metricsMap st) n")
  case None
  then show ?thesis using assms by (simp add: writeMetric_def)
next
  case (Some m)
  from map_get_member [OF Some] assms have "validValueType m"
    by (force simp add: validValueTypes_def map_values_def list_all_iff)
  then show ?thesis using assms Some
    by (simp add: writeMetric_def validValueTypes_def map_values_def list_all_map_set
        validValueType_def)
qed

lemma validValueTypes_erased:
  assumes "map (\<lambda>(k, m). (k, m\<lparr>responseDescriptor := None\<rparr>)) (metricsMap st')
           = map (\<lambda>(k, m). (k, m\<lparr>responseDescriptor := None\<rparr>)) (metricsMap st)"
    and "validValueTypes st"
  shows "validValueTypes st'"
proof -
  have "validValueType m'" if mem: "(k, m') \<in> set (metricsMap st')" for k m'
  proof -
    obtain m where "(k, m) \<in> set (metricsMap st)"
      and "m\<lparr>responseDescriptor := None\<rparr> = m'\<lparr>responseDescriptor := None\<rparr>"
      using erased_member [OF assms(1) [symmetric] mem] by blast
    then show ?thesis using assms(2) erased_fields(4) [of m m']
      by (force simp add: validValueTypes_def validValueType_def map_values_def list_all_iff)
  qed
  then show ?thesis by (auto simp add: validValueTypes_def map_values_def list_all_iff)
qed

lemma sendTimeSeries_state_cases:
  "metricsMap (state_after (sendTimeSeries cl st ts))
     = update_each (convertRate ts (prevSendTimestamp st)) (metricsMap st)
   \<or> metricsMap (state_after (sendTimeSeries cl st ts))
     = update_each clearValue (update_each (convertRate ts (prevSendTimestamp st)) (metricsMap st))"
  by (simp add: sendTimeSeries_def state_after_def Let_def split: sum.splits)

lemma validValueType_preserved:
  "validValueType (convertRate ts p m) = validValueType m"
  "validValueType (clearValue m) = validValueType m"
  by (simp_all add: validValueType_def convertRate_fields clearValue_def)

lemma list_all_update_each:
  "(\<And>m. P (f m) = P m) \<Longrightarrow> list_all P (map_values (update_each f ms)) = list_all P (map_values ms)"
  by (simp add: map_values_update_each list_all_iff)

lemma validValueTypes_sendTimeSeries:
  assumes "validValueTypes st"
  shows "validValueTypes (state_after (sendTimeSeries cl st ts))"
  using assms sendTimeSeries_state_cases [of cl st ts]
  by (auto simp add: validValueTypes_def list_all_update_each validValueType_preserved)

lemma validValueTypes_sendValues:
  assumes "validValueTypes st"
  shows "validValueTypes (state_after (sendValues cl st ts))"
proof -
  have "validValueTypes (state_after (sendCreateMetrics cl st ts))"
    by (rule validValueTypes_erased [OF sendCreateMetrics_frame assms])
  then show ?thesis
    using validValueTypes_sendTimeSeries
    by (cases "fst (sendCreateMetrics cl st ts)")
       (simp_all add: sendValues_unfold state_after_def [of "(a, b, c)" for a b c])
qed

section \<open>Flushes of the example instances, evaluated\<close>

lemma requestsWritten_eq:
  "requestsWritten = exampleInstance [(''requests'', requestsMetric\<lparr>mvalue := Number 5\<rparr>)]"
  by (simp add: requestsWritten_def requestsInstance_eq exampleInstance_def requestsMetric_def
      requestsHandle_def writeRate_def writeMetric_def js_add_def Let_def)

lemma sendCreateMetrics_requests:
  assumes "projectPath cl = (\<lambda>p. ''projects/'' @ p)"
    and "createMetricDescriptor cl = (\<lambda>req. Inr (metricDescriptor req))"
  shows "sendCreateMetrics cl (exampleInstance [(''requests'', requestsMetric\<lparr>mvalue := v\<rparr>)]) ts
         = (None,
            exampleInstance [(''requests'',
              requestsMetric\<lparr>mvalue := v,
                responseDescriptor := Some (requestDescriptor requestsMetric)\<rparr>)],
            [CreateMetricDescriptor requestsRegistration])"
  by (simp add: assms sendCreateMetrics_def pendingRequests_def map_values_def exampleInstance_def
      requestsMetric_def requestsRegistration_def createMetricsRequest_def Let_def getMetricName_def)

lemma sendCreateMetrics_registered:
  "sendCreateMetrics cl
     ((exampleInstance [(''requests'', requestsMetric\<lparr>mvalue := v, responseDescriptor := Some d\<rparr>)])
        \<lparr>prevSendTimestamp := p\<rparr>) ts
   = (None,
      (exampleInstance [(''requests'', requestsMetric\<lparr>mvalue := v, responseDescriptor := Some d\<rparr>)])
        \<lparr>prevSendTimestamp := p\<rparr>, [])"
  by (simp add: sendCreateMetrics_def pendingRequests_def map_values_def exampleInstance_def
      requestsMetric_def Let_def)

lemma sendTimeSeries_requests:
  assumes "projectPath cl = (\<lambda>p. ''projects/'' @ p)"
    and "v = Number (if ts - p > 0 then x / (ts - p) * 1000 else 0)"
  shows "sendTimeSeries cl
           ((exampleInstance [(''requests'', requestsMetric\<lparr>mvalue := Number x, responseDescriptor := rd\<rparr>)])
              \<lparr>prevSendTimestamp := p\<rparr>) ts
         = (case createTimeSeries cl (requestsSeriesAt v ts) of
              Inr r \<Rightarrow>
                (Inr (Some r),
                 (exampleInstance [(''requests'',
                    requestsMetric\<lparr>mvalue := Number 0, responseDescriptor := rd\<rparr>)])
                   \<lparr>prevSendTimestamp := ts\<rparr>,
                 [CreateTimeSeries (requestsSeriesAt v ts)])
            | Inl e \<Rightarrow>
                (Inl e,
                 (exampleInstance [(''requests'',
                    requestsMetric\<lparr>mvalue := v, responseDescriptor := rd\<rparr>)])
                   \<lparr>prevSendTimestamp := ts\<rparr>,
                 [CreateTimeSeries (requestsSeriesAt v ts)]))"
  by (simp add: assms sendTimeSeries_def exampleInstance_def requestsMetric_def
      update_each_def convertRate_def map_values_def included_def clearValue_def
      requestsSeriesAt_def createTimeSeriesData_def createDataPoint_def type_defs
      js_div_def js_mul_def Let_def split: sum.splits)

lemma exampleInstance_prev: "(exampleInstance ms)\<lparr>prevSendTimestamp := 0\<rparr> = exampleInstance ms"
  by (simp add: exampleInstance_def)

lemma client_fields:
  "projectPath echoClient = (\<lambda>p. ''projects/'' @ p)"
  "createMetricDescriptor echoClient = (\<lambda>req. Inr (metricDescriptor req))"
  "createTimeSeries echoClient = (\<lambda>req. Inr ())"
  "projectPath failingSubmitClient = (\<lambda>p. ''projects/'' @ p)"
  "createMetricDescriptor failingSubmitClient = (\<lambda>req. Inr (metricDescriptor req))"
  "createTimeSeries failingSubmitClient = (\<lambda>req. Inl (BackendError ''unavailable''))"
  "projectPath failingRegisterClient = (\<lambda>p. ''projects/'' @ p)"
  "createMetricDescriptor failingRegisterClient = (\<lambda>req. Inl (BackendError ''unavailable''))"
  by (simp_all add: echoClient_def failingSubmitClient_def failingRegisterClient_def)

lemma sendValues_requests:
  assumes "projectPath cl = (\<lambda>p. ''projects/'' @ p)"
    and "createMetricDescriptor cl = (\<lambda>req. Inr (metricDescriptor req))"
  shows "sendValues cl requestsWritten 2000
         = (case createTimeSeries cl (requestsSeriesAt (Number (5 / 2)) 2000) of
              Inr r \<Rightarrow>
                (Inr (Some r),
                 (exampleInstance [(''requests'',
                    requestsMetric\<lparr>mvalue := Number 0,
                      responseDescriptor := Some (requestDescriptor requestsMetric)\<rparr>)])
                   \<lparr>prevSendTimestamp := 2000\<rparr>,
                 [CreateMetricDescriptor requestsRegistration,
                  CreateTimeSeries (requestsSeriesAt (Number (5 / 2)) 2000)])
            | Inl e \<Rightarrow>
                (Inl e,
                 (exampleInstance [(''requests'',
                    requestsMetric\<lparr>mvalue := Number (5 / 2),
                      responseDescriptor := Some (requestDescriptor requestsMetric)\<rparr>)])
                   \<lparr>prevSendTimestamp := 2000\<rparr>,
                 [CreateMetricDescriptor requestsRegistration,
                  CreateTimeSeries (requestsSeriesAt (Number (5 / 2)) 2000)]))"
proof -
  have ts: "sendTimeSeries cl
      (exampleInstance [(''requests'', requestsMetric\<lparr>mvalue := Number 5,
          responseDescriptor := Some (requestDescriptor requestsMetric)\<rparr>)]) 2000
      = (case createTimeSeries cl (requestsSeriesAt (Number (5 / 2)) 2000) of
              Inr r \<Rightarrow>
                (Inr (Some r),
                 (exampleInstance [(''requests'',
                    requestsMetric\<lparr>mvalue := Number 0,
                      responseDescriptor := Some (requestDescriptor requestsMetric)\<rparr>)])
                   \<lparr>prevSendTimestamp := 2000\<rparr>,
                 [CreateTimeSeries (requestsSeriesAt (Number (5 / 2)) 2000)])
            | Inl e \<Rightarrow>
                (Inl e,
                 (exampleInstance [(''requests'',
                    requestsMetric\<lparr>mvalue := Number (5 / 2),
                      responseDescriptor := Some (requestDescriptor requestsMetric)\<rparr>)])
                   \<lparr>prevSendTimestamp := 2000\<rparr>,
                 [CreateTimeSeries (requestsSeriesAt (Number (5 / 2)) 2000)]))"
    using sendTimeSeries_requests [OF assms(1), where x = 5 and p = 0 and ts = 2000
        and v = "Number (5 / 2)" and rd = "Some (requestDescriptor requestsMetric)"]
    by (simp add: exampleInstance_prev)
  show ?thesis
    unfolding requestsWritten_eq sendValues_def sendCreateMetrics_requests [OF assms]
    by (simp add: ts split: sum.splits)
qed

section \<open>The rate submitted\<close>

text \<open>
  Claim C1. Whenever a flush at the timestamp \<open>ts\<close> submits a request, the request has,
  for every rate metric of the instance with the accumulated delta-sum \<open>S\<close> and the rate
  interval \<open>u\<close>, an entry of the metric's type whose single point carries
  \<open>(S / (ts - prev)) * u\<close> when \<open>ts - prev > 0\<close> and \<open>0\<close> otherwise, \<open>prev\<close> being the
  timestamp of the previous flush.
\<close>

theorem rate_value_submitted:
  assumes "CreateTimeSeries req \<in> set (calls_of (sendValues cl st ts))"
    and "(k, m) \<in> set (metricsMap st)" and "rateInterval m = Some u" and "u \<noteq> 0"
    and "mvalue m = Number S"
  shows "\<exists>e \<in> set (timeSeries req).
           metricType e = descType (requestDescriptor m)
           \<and> map (carried \<circ> pointValue) (points e) =
               [Number (if ts - prevSendTimestamp st > 0
                        then (S / (ts - prevSendTimestamp st)) * u else 0)]"
proof -
  let ?st1 = "state_after (sendCreateMetrics cl st ts)"
  have reg: "CreateTimeSeries req \<notin> set (calls_of (sendCreateMetrics cl st ts))"
    by (auto simp add: sendCreateMetrics_calls)
  have sub: "CreateTimeSeries req \<in> set (calls_of (sendTimeSeries cl ?st1 ts))"
  proof (cases "fst (sendCreateMetrics cl st ts)")
    case (Some e)
    then have "calls_of (sendValues cl st ts) = calls_of (sendCreateMetrics cl st ts)"
      by (simp add: sendValues_unfold calls_of_def [of "(a, b, c)" for a b c])
    with assms(1) reg show ?thesis by simp
  next
    case None
    then have "calls_of (sendValues cl st ts)
        = calls_of (sendCreateMetrics cl st ts) @ calls_of (sendTimeSeries cl ?st1 ts)"
      by (simp add: sendValues_unfold calls_of_def [of "(a, b, c)" for a b c])
    with assms(1) reg show ?thesis by simp
  qed
  obtain m' where m': "(k, m') \<in> set (metricsMap ?st1)"
    and er: "m'\<lparr>responseDescriptor := None\<rparr> = m\<lparr>responseDescriptor := None\<rparr>"
    using erased_member [OF sendCreateMetrics_frame [of cl st ts] assms(2)] by blast
  have ri: "rateInterval m' = Some u" using erased_fields(1) [OF er] assms(3) by simp
  have v: "(if ts - prevSendTimestamp ?st1 > 0
            then js_mul (js_div (mvalue m') (ts - prevSendTimestamp ?st1)) u else Number 0)
           = Number (if ts - prevSendTimestamp st > 0
                     then (S / (ts - prevSendTimestamp st)) * u else 0)"
    by (simp add: erased_fields(2) [OF er] sendCreateMetrics_prev assms(5) js_div_def js_mul_def)
  from rate_value_in_sendTimeSeries [OF sub m' ri assms(4)]
  show ?thesis unfolding v erased_fields(3) [OF er] .
qed

theorem rate_value_submitted_witness:
  "CreateTimeSeries (requestsSeriesAt (Number (5 / 2)) 2000)
     \<in> set (calls_of (sendValues echoClient requestsWritten 2000))
   \<and> (''requests'', requestsMetric\<lparr>mvalue := Number 5\<rparr>) \<in> set (metricsMap requestsWritten)
   \<and> rateInterval (requestsMetric\<lparr>mvalue := Number 5\<rparr>) = Some 1000
   \<and> prevSendTimestamp requestsWritten = 0
   \<and> (\<exists>e \<in> set (timeSeries (requestsSeriesAt (Number (5 / 2)) 2000)).
         metricType e = ''custom.googleapis.com/app/requests''
         \<and> map (carried \<circ> pointValue) (points e) = [Number ((5 / 2000) * 1000)])"
proof -
  have h1: "CreateTimeSeries (requestsSeriesAt (Number (5 / 2)) 2000)
     \<in> set (calls_of (sendValues echoClient requestsWritten 2000))"
    by (simp add: sendValues_requests client_fields calls_of_def)
  have h2: "(''requests'', requestsMetric\<lparr>mvalue := Number 5\<rparr>) \<in> set (metricsMap requestsWritten)"
    by (simp add: requestsWritten_eq exampleInstance_def)
  have h3: "rateInterval (requestsMetric\<lparr>mvalue := Number 5\<rparr>) = Some 1000"
    by (simp add: requestsMetric_def)
  have h4: "(1000::real) \<noteq> 0" by simp
  have h5: "mvalue (requestsMetric\<lparr>mvalue := Number 5\<rparr>) = Number 5" by simp
  have p: "prevSendTimestamp requestsWritten = 0"
    by (simp add: requestsWritten_eq exampleInstance_def)
  have d: "descType (requestDescriptor requestsMetric) = ''custom.googleapis.com/app/requests''"
    by (simp add: requestsMetric_def)
  show ?thesis
    using h1 h2 h3 p rate_value_submitted [OF h1 h2 h3 h4 h5]
    by (simp add: p d)
qed

section \<open>The set of submitted points\<close>

text \<open>
  Claim C6. The submission phase of a flush takes the rate metrics, whatever their rate,
  and the other metrics whose value is not \<open>undefined\<close>. When there is none, it issues no
  request and completes without error. Otherwise it issues exactly one request, with one
  entry for each of them, in order, each entry with one point. (On an instance whose
  metrics all have one of the three value types, which \<open>createMetric\<close>, the writes and the
  flushes maintain.)
\<close>

theorem submitted_point_set:
  assumes "validValueTypes st"
  shows "(filter (\<lambda>m. truthy (rateInterval m) \<or> mvalue m \<noteq> Undefined) (map_values (metricsMap st)) = []
            \<longrightarrow> calls_of (sendTimeSeries cl st ts) = [] \<and> outcome (sendTimeSeries cl st ts) = Inr None)
         \<and> (filter (\<lambda>m. truthy (rateInterval m) \<or> mvalue m \<noteq> Undefined) (map_values (metricsMap st)) \<noteq> []
            \<longrightarrow> (\<exists>req. calls_of (sendTimeSeries cl st ts) = [CreateTimeSeries req]
                  \<and> map metricType (timeSeries req)
                      = map (descType \<circ> requestDescriptor)
                          (filter (\<lambda>m. truthy (rateInterval m) \<or> mvalue m \<noteq> Undefined)
                             (map_values (metricsMap st)))
                  \<and> (\<forall>e \<in> set (timeSeries req). length (points e) = 1)))"
proof -
  let ?p = "prevSendTimestamp st"
  let ?st2 = "st\<lparr>metricsMap := update_each (convertRate ts ?p) (metricsMap st),
                 prevSendTimestamp := ts\<rparr>"
  let ?ms = "filter included (map_values (metricsMap st))"
  let ?xs = "filter included (map_values (update_each (convertRate ts ?p) (metricsMap st)))"
  have inc: "filter (\<lambda>m. truthy (rateInterval m) \<or> mvalue m \<noteq> Undefined) (map_values (metricsMap st)) = ?ms"
    by (simp add: included_def [abs_def])
  have xs: "?xs = map (convertRate ts ?p) ?ms"
    by (simp add: map_values_update_each filter_included_converted)
  have "\<exists>e. createTimeSeriesData ?st2 ts x = Inr e" if "x \<in> set ?xs" for x
  proof -
    from that obtain m where "m \<in> set (map_values (metricsMap st))" and x: "x = convertRate ts ?p m"
      unfolding xs by auto
    then have "validValueType m" using assms by (simp add: validValueTypes_def list_all_iff)
    then have "validValueType x" by (simp add: x validValueType_def convertRate_fields)
    then show ?thesis by (rule createTimeSeriesData_valid)
  qed
  then obtain es where es: "map_throwing (createTimeSeriesData ?st2 ts) ?xs = Inr es"
    using map_throwing_total [of ?xs "createTimeSeriesData ?st2 ts"] by blast
  have l2: "list_all2 (\<lambda>m e. createTimeSeriesData ?st2 ts (convertRate ts ?p m) = Inr e) ?ms es"
    using map_throwing_Inr [OF es] by (simp add: xs list_all2_map1)
  have len: "length es = length ?ms" using l2 by (simp add: list_all2_lengthD)
  have types: "map metricType es = map (descType \<circ> requestDescriptor) ?ms"
    by (rule list_all2_map_eq [OF l2]) (simp add: createTimeSeriesData_Inr convertRate_fields)
  have one: "\<forall>e \<in> set es. length (points e) = 1"
  proof (rule list_all2_all_right [OF l2])
    fix m e assume "createTimeSeriesData ?st2 ts (convertRate ts ?p m) = Inr e"
    from createTimeSeriesData_Inr [OF this]
    have "length (map (carried \<circ> pointValue) (points e)) = 1" by simp
    then show "length (points e) = 1" by simp
  qed
  note calls = sendTimeSeries_calls_Inr [OF es, of cl]
  show ?thesis
  proof (cases "?ms = []")
    case True
    then have "es = []" using len by simp
    with calls True show ?thesis unfolding inc by simp
  next
    case False
    then have "es \<noteq> []" using len by auto
    with calls(1) types one False show ?thesis unfolding inc by simp
  qed
qed

theorem submitted_point_set_witness:
  "validValueTypes queueInstance
   \<and> filter (\<lambda>m. truthy (rateInterval m) \<or> mvalue m \<noteq> Undefined)
        (map_values (metricsMap queueInstance)) = []
   \<and> calls_of (sendTimeSeries echoClient queueInstance 2000) = []
   \<and> outcome (sendTimeSeries echoClient queueInstance 2000) = Inr None
   \<and> validValueTypes requestsWritten
   \<and> filter (\<lambda>m. truthy (rateInterval m) \<or> mvalue m \<noteq> Undefined)
        (map_values (metricsMap requestsWritten)) = [requestsMetric\<lparr>mvalue := Number 5\<rparr>]
   \<and> (\<exists>req. calls_of (sendTimeSeries echoClient requestsWritten 2000) = [CreateTimeSeries req]
          \<and> map metricType (timeSeries req) = [''custom.googleapis.com/app/requests'']
          \<and> (\<forall>e \<in> set (timeSeries req). length (points e) = 1))"
proof -
  have v1: "validValueTypes queueInstance"
    by (simp add: queueInstance_eq validValueTypes_def validValueType_def map_values_def
        exampleInstance_def queueMetric_def type_defs)
  have f1: "filter (\<lambda>m. truthy (rateInterval m) \<or> mvalue m \<noteq> Undefined)
        (map_values (metricsMap queueInstance)) = []"
    by (simp add: queueInstance_eq map_values_def exampleInstance_def queueMetric_def)
  have v2: "validValueTypes requestsWritten"
    by (simp add: requestsWritten_eq validValueTypes_def validValueType_def map_values_def
        exampleInstance_def requestsMetric_def type_defs)
  have f2: "filter (\<lambda>m. truthy (rateInterval m) \<or> mvalue m \<noteq> Undefined)
        (map_values (metricsMap requestsWritten)) = [requestsMetric\<lparr>mvalue := Number 5\<rparr>]"
    by (simp add: requestsWritten_eq map_values_def exampleInstance_def requestsMetric_def)
  have d: "descType (requestDescriptor requestsMetric) = ''custom.googleapis.com/app/requests''"
    by (simp add: requestsMetric_def)
  show ?thesis
    using v1 f1 v2 f2
      submitted_point_set [OF v1, of echoClient 2000]
      submitted_point_set [OF v2, of echoClient 2000]
    by (simp add: d)
qed

section \<open>A successful submission\<close>

text \<open>
  Claim C4. After a flush whose submission succeeded, every metric of the instance holds
  \<open>0\<close> if it is a rate metric and \<open>undefined\<close> otherwise, whatever it held before; the
  flush changes neither the names nor the kinds of the metrics.
\<close>

theorem successful_flush_resets:
  assumes "outcome (sendValues cl st ts) = Inr (Some r)"
  shows "(\<forall>(k, m) \<in> set (metricsMap (state_after (sendValues cl st ts))).
            mvalue m = (if truthy (rateInterval m) then Number 0 else Undefined))
         \<and> map (\<lambda>(k, m). (k, rateInterval m)) (metricsMap (state_after (sendValues cl st ts)))
             = map (\<lambda>(k, m). (k, rateInterval m)) (metricsMap st)"
proof (cases "fst (sendCreateMetrics cl st ts)")
  case (Some e)
  then have "outcome (sendValues cl st ts) = Inl e"
    by (simp add: sendValues_unfold outcome_def)
  with assms show ?thesis by simp
next
  case None
  let ?st1 = "state_after (sendCreateMetrics cl st ts)"
  have sa: "state_after (sendValues cl st ts) = state_after (sendTimeSeries cl ?st1 ts)"
    using None by (simp add: sendValues_unfold state_after_def [of "(a, b, c)" for a b c])
  have oc: "outcome (sendTimeSeries cl ?st1 ts) = Inr (Some r)"
    using None assms by (simp add: sendValues_unfold outcome_def [of "(a, b, c)" for a b c])
  have "\<forall>(k, m) \<in> set (metricsMap (state_after (sendTimeSeries cl ?st1 ts))).
            mvalue m = (if truthy (rateInterval m) then Number 0 else Undefined)"
    using sendTimeSeries_reset [OF oc] by blast
  moreover have "map (\<lambda>(k, m). (k, rateInterval m)) (metricsMap (state_after (sendTimeSeries cl ?st1 ts)))
             = map (\<lambda>(k, m). (k, rateInterval m)) (metricsMap st)"
    using sendTimeSeries_keys [of cl ?st1 ts] erase_keys [OF sendCreateMetrics_frame [of cl st ts]]
    by simp
  ultimately show ?thesis unfolding sa by blast
qed

theorem successful_flush_resets_witness:
  "outcome (sendValues echoClient requestsWritten 2000) = Inr (Some ())
   \<and> accumulatedValue requestsWritten ''requests'' = Some (Number 5)
   \<and> map fst (metricsMap (state_after (sendValues echoClient requestsWritten 2000)))
       = [''requests'']
   \<and> accumulatedValue (state_after (sendValues echoClient requestsWritten 2000)) ''requests''
       = Some (Number 0)"
proof -
  let ?after = "state_after (sendValues echoClient requestsWritten 2000)"
  let ?m = "requestsMetric\<lparr>mvalue := Number 0,
              responseDescriptor := Some (requestDescriptor requestsMetric)\<rparr>"
  have h: "outcome (sendValues echoClient requestsWritten 2000) = Inr (Some ())"
    by (simp add: sendValues_requests client_fields outcome_def)
  have a: "accumulatedValue requestsWritten ''requests'' = Some (Number 5)"
    by (simp add: requestsWritten_eq exampleInstance_def accumulatedValue_def)
  have ms: "metricsMap ?after = [(''requests'', ?m)]"
    by (simp add: sendValues_requests client_fields state_after_def exampleInstance_def)
  have "\<forall>(k, m) \<in> set (metricsMap ?after).
          mvalue m = (if truthy (rateInterval m) then Number 0 else Undefined)"
    using successful_flush_resets [OF h] by blast
  then have "mvalue ?m = (if truthy (rateInterval ?m) then Number 0 else Undefined)"
    unfolding ms by simp
  then have b: "accumulatedValue ?after ''requests'' = Some (Number 0)"
    by (simp add: accumulatedValue_def ms)
  show ?thesis using h a b by (simp add: ms)
qed

section \<open>A failed submission\<close>

text \<open>What a failed submission does keep: the values of the metrics that are not rates.\<close>

lemma failed_submission_keeps_other_values:
  assumes "outcome (sendTimeSeries cl st ts) = Inl e"
    and "(k, m) \<in> set (metricsMap st)" and "\<not> truthy (rateInterval m)"
  shows "(k, m) \<in> set (metricsMap (state_after (sendTimeSeries cl st ts)))"
proof -
  have "(k, convertRate ts (prevSendTimestamp st) m)
          \<in> set (update_each (convertRate ts (prevSendTimestamp st)) (metricsMap st))"
    using assms(2) by (force simp add: update_each_def)
  then show ?thesis
    by (simp add: sendTimeSeries_failure_state [OF assms(1)] convertRate_gauge [OF assms(3)])
qed

text \<open>
  Claim C3 does not hold of the code: the rate conversion assigns the rate to the stored
  \<open>value\<close> before the submission, and a failed submission does not restore it. With the
  deltas 3 and 2 written to \<open>requests\<close> and a flush at 2000 whose submission fails, the
  accumulator holds the rate 2.5 afterwards, not the delta-sum 5.
\<close>

theorem failed_submission_overwrites_rate_accumulator:
  "accumulatedValue requestsWritten ''requests'' = Some (Number 5)
   \<and> outcome (sendValues failingSubmitClient requestsWritten 2000)
       = Inl (BackendError ''unavailable'')
   \<and> accumulatedValue (state_after (sendValues failingSubmitClient requestsWritten 2000))
        ''requests'' = Some (Number (5 / 2))"
proof -
  have "accumulatedValue requestsWritten ''requests'' = Some (Number 5)"
    by (simp add: requestsWritten_eq exampleInstance_def accumulatedValue_def)
  moreover have "outcome (sendValues failingSubmitClient requestsWritten 2000)
       = Inl (BackendError ''unavailable'')"
    by (simp add: sendValues_requests client_fields outcome_def)
  moreover have "accumulatedValue (state_after (sendValues failingSubmitClient requestsWritten 2000))
        ''requests'' = Some (Number (5 / 2))"
    by (simp add: sendValues_requests client_fields state_after_def exampleInstance_def
        accumulatedValue_def)
  ultimately show ?thesis by blast
qed

section \<open>The timestamp of the previous flush\<close>

text \<open>
  Claim C9. The submission phase leaves \<open>prevSendTimestamp\<close> equal to the timestamp of
  the flush whatever its outcome, success, failure or nothing to send; so does every
  flush whose registration phase completes.
\<close>

theorem timestamp_advances_before_outcome:
  "prevSendTimestamp (state_after (sendTimeSeries cl st ts)) = ts
   \<and> (fst (sendCreateMetrics cl st ts) = None \<longrightarrow>
        prevSendTimestamp (state_after (sendValues cl st ts)) = ts)"
  by (simp add: sendValues_unfold sendTimeSeries_prev state_after_def [of "(a, b, c)" for a b c])

theorem timestamp_advances_before_outcome_witness:
  "fst (sendCreateMetrics failingSubmitClient requestsWritten 2000) = None
   \<and> outcome (sendValues failingSubmitClient requestsWritten 2000) = Inl (BackendError ''unavailable'')
   \<and> prevSendTimestamp requestsWritten = 0
   \<and> prevSendTimestamp (state_after (sendValues failingSubmitClient requestsWritten 2000)) = 2000"
proof -
  have h: "fst (sendCreateMetrics failingSubmitClient requestsWritten 2000) = None"
    by (simp add: requestsWritten_eq sendCreateMetrics_requests client_fields)
  have o: "outcome (sendValues failingSubmitClient requestsWritten 2000) = Inl (BackendError ''unavailable'')"
    by (simp add: sendValues_requests client_fields outcome_def)
  have p: "prevSendTimestamp requestsWritten = 0"
    by (simp add: requestsWritten_eq exampleInstance_def)
  show ?thesis
    using h o p timestamp_advances_before_outcome [of failingSubmitClient requestsWritten 2000]
    by simp
qed

section \<open>A failed registration\<close>

text \<open>
  Claim C8. If a registration request of a flush fails, the flush fails; it has issued the
  registration requests and nothing else, so no time series was submitted; the instance
  is exactly as before, accumulators included; and the same metrics are pending
  registration for the next flush.
\<close>

theorem registration_failure_aborts_cycle:
  assumes "req \<in> set (pendingRequests cl st)" and "createMetricDescriptor cl req = Inl e"
  shows "(\<exists>e'. outcome (sendValues cl st ts) = Inl e')
         \<and> state_after (sendValues cl st ts) = st
         \<and> calls_of (sendValues cl st ts) = map CreateMetricDescriptor (pendingRequests cl st)
         \<and> pendingNames (state_after (sendValues cl st ts)) = pendingNames st"
proof -
  obtain e' where "sendCreateMetrics cl st ts = (Some e', st, map CreateMetricDescriptor (pendingRequests cl st))"
    using sendCreateMetrics_failure [OF assms] by blast
  then have "sendValues cl st ts = (Inl e', st, map CreateMetricDescriptor (pendingRequests cl st))"
    by (simp add: sendValues_def)
  then show ?thesis by (simp add: outcome_def state_after_def calls_of_def)
qed

theorem registration_failure_aborts_cycle_witness:
  "requestsRegistration \<in> set (pendingRequests failingRegisterClient requestsWritten)
   \<and> createMetricDescriptor failingRegisterClient requestsRegistration
       = Inl (BackendError ''unavailable'')
   \<and> (\<exists>e'. outcome (sendValues failingRegisterClient requestsWritten 2000) = Inl e')
   \<and> state_after (sendValues failingRegisterClient requestsWritten 2000) = requestsWritten
   \<and> calls_of (sendValues failingRegisterClient requestsWritten 2000)
       = [CreateMetricDescriptor requestsRegistration]
   \<and> pendingNames (state_after (sendValues failingRegisterClient requestsWritten 2000))
       = [''requests'']"
proof -
  have pr: "pendingRequests failingRegisterClient requestsWritten = [requestsRegistration]"
    by (simp add: requestsWritten_eq pendingRequests_def map_values_def exampleInstance_def
        requestsMetric_def requestsRegistration_def createMetricsRequest_def client_fields)
  have h1: "requestsRegistration \<in> set (pendingRequests failingRegisterClient requestsWritten)"
    by (simp add: pr)
  have h2: "createMetricDescriptor failingRegisterClient requestsRegistration
       = Inl (BackendError ''unavailable'')"
    by (simp add: client_fields)
  have pn: "pendingNames requestsWritten = [''requests'']"
    by (simp add: requestsWritten_eq pendingNames_def exampleInstance_def requestsMetric_def)
  show ?thesis
    using h1 h2 registration_failure_aborts_cycle [OF h1 h2, of 2000]
    by (simp add: pr pn)
qed

section \<open>Keys of the metrics map and names in descriptor types\<close>

lemma split_on_nonempty: "split_on c xs \<noteq> []"
  by (induction xs) (auto split: list.splits)

lemma split_on_no_separator: "c \<notin> set xs \<Longrightarrow> split_on c xs = [xs]"
  by (induction xs) auto

lemma split_on_append: "split_on c (p @ c # n) = split_on c p @ split_on c n"
proof (induction p)
  case Nil
  show ?case by simp
next
  case (Cons x p)
  obtain s ss where s: "split_on c p = s # ss"
    using split_on_nonempty [of c p] by (cases "split_on c p") auto
  show ?case using Cons s by simp
qed

lemma getMetricName_of_type:
  assumes "CHR ''/'' \<notin> set n"
  shows "getMetricName (p @ ''/'' @ n) = n"
  using assms split_on_append [of "CHR ''/''" p n]
  by (simp add: getMetricName_def split_on_no_separator split_on_nonempty)

lemma map_set_key_set: "fst ` set (map_set ms k v) = insert k (fst ` set ms)"
proof (induction ms)
  case Nil
  show ?case by simp
next
  case (Cons a ms)
  obtain ak av where a: "a = (ak, av)" by (cases a)
  show ?case
  proof (cases "ak = k")
    case True
    then show ?thesis by (simp add: a)
  next
    case False
    then show ?thesis by (simp add: a Cons.IH insert_commute)
  qed
qed

lemma distinct_map_set: "distinct (map fst ms) \<Longrightarrow> distinct (map fst (map_set ms k v))"
proof (induction ms)
  case Nil
  show ?case by simp
next
  case (Cons a ms)
  obtain ak av where a: "a = (ak, av)" by (cases a)
  show ?case
  proof (cases "ak = k")
    case True
    then show ?thesis using Cons.prems by (simp add: a)
  next
    case False
    then show ?thesis using Cons by (simp add: a map_set_key_set)
  qed
qed

lemma distinct_keys_new: "distinct (map fst (metricsMap (newStackMetrics pid app env grp now)))"
  by (simp add: newStackMetrics_def)

lemma distinct_keys_createMetric:
  assumes "distinct (map fst (metricsMap st))"
  shows "distinct (map fst (metricsMap (snd (createMetric st n d t))))"
  using assms
  by (cases "getValueTypeForMetricType t") (simp_all add: createMetric_def Let_def distinct_map_set)

lemma distinct_keys_writeMetric:
  assumes "distinct (map fst (metricsMap st))"
  shows "distinct (map fst (metricsMap (snd (writeMetric st n v))))"
  using assms
  by (cases "map_get (metricsMap st) n") (simp_all add: writeMetric_def distinct_map_set)

section \<open>Two flushes in succession\<close>

text \<open>A registration phase that completes leaves no metric without a response descriptor.\<close>

lemma promise_all_Inr:
  "promise_all ps = Inr xs \<Longrightarrow> list_all2 (\<lambda>p x. p = Inr x) ps xs"
proof (induction ps arbitrary: xs rule: promise_all.induct)
  case 1
  then show ?case by simp
next
  case (2 e ps)
  then show ?case by simp
next
  case (3 x ps)
  then show ?case by (auto split: sum.splits)
qed

lemma map_set_member:
  assumes "distinct (map fst ms)" and "(k', m') \<in> set (map_set ms k v)"
  shows "(k' = k \<and> m' = v) \<or> (k' \<noteq> k \<and> (k', m') \<in> set ms)"
  using assms
proof (induction ms)
  case Nil
  then show ?case by simp
next
  case (Cons a ms)
  obtain ak av where a: "a = (ak, av)" by (cases a)
  show ?case
  proof (cases "ak = k")
    case True
    with Cons.prems a show ?thesis by (force simp add: image_iff)
  next
    case False
    with Cons a show ?thesis by auto
  qed
qed

lemma map_set_keys: "map_get ms k = Some m \<Longrightarrow> map fst (map_set ms k v) = map fst ms"
  by (induction ms) (auto split: if_splits)

lemma setResponseDescriptors_unregistered:
  assumes "distinct (map fst (metricsMap s))"
    and "fst (setResponseDescriptors s ds) = None"
    and "(k, m) \<in> set (metricsMap (snd (setResponseDescriptors s ds)))"
    and "responseDescriptor m = None"
  shows "(k, m) \<in> set (metricsMap s) \<and> k \<notin> (\<lambda>d. getMetricName (descType d)) ` set ds"
  using assms
proof (induction ds arbitrary: s)
  case Nil
  then show ?case by simp
next
  case (Cons d ds)
  let ?k = "getMetricName (descType d)"
  show ?case
  proof (cases "map_get (metricsMap s) ?k")
    case None
    with Cons.prems(2) show ?thesis by simp
  next
    case (Some m0)
    let ?s = "s\<lparr>metricsMap := map_set (metricsMap s) ?k (m0\<lparr>responseDescriptor := Some d\<rparr>)\<rparr>"
    have step: "setResponseDescriptors s (d # ds) = setResponseDescriptors ?s ds"
      using Some by simp
    have dist: "distinct (map fst (metricsMap ?s))"
      using Cons.prems(1) by (simp add: map_set_keys [OF Some])
    have ok: "fst (setResponseDescriptors ?s ds) = None"
      using Cons.prems(2) unfolding step .
    have mem: "(k, m) \<in> set (metricsMap (snd (setResponseDescriptors ?s ds)))"
      using Cons.prems(3) unfolding step .
    have ih: "(k, m) \<in> set (metricsMap ?s) \<and> k \<notin> (\<lambda>d. getMetricName (descType d)) ` set ds"
      by (rule Cons.IH [OF dist ok mem Cons.prems(4)])
    then have "(k, m) \<in> set (map_set (metricsMap s) ?k (m0\<lparr>responseDescriptor := Some d\<rparr>))"
      by simp
    from map_set_member [OF Cons.prems(1) this]
    have "(k = ?k \<and> m = m0\<lparr>responseDescriptor := Some d\<rparr>) \<or> (k \<noteq> ?k \<and> (k, m) \<in> set (metricsMap s))" .
    moreover have "m \<noteq> m0\<lparr>responseDescriptor := Some d\<rparr>"
      using Cons.prems(4) by auto
    ultimately have "k \<noteq> ?k \<and> (k, m) \<in> set (metricsMap s)" by blast
    with ih show ?thesis by simp
  qed
qed

lemma sendCreateMetrics_registers_all:
  assumes ok: "fst (sendCreateMetrics cl st ts) = None"
    and keys: "distinct (map fst (metricsMap st))"
    and echo: "\<And>k m d. (k, m) \<in> set (metricsMap st) \<Longrightarrow> responseDescriptor m = None \<Longrightarrow>
                 createMetricDescriptor cl (createMetricsRequest cl st (requestDescriptor m)) = Inr d \<Longrightarrow>
                 getMetricName (descType d) = k"
    and mem: "(k, m) \<in> set (metricsMap (state_after (sendCreateMetrics cl st ts)))"
  shows "responseDescriptor m \<noteq> None"
proof
  assume none: "responseDescriptor m = None"
  let ?reqs = "pendingRequests cl st"
  obtain ds where ds: "promise_all (map (createMetricDescriptor cl) ?reqs) = Inr ds"
    using ok by (cases "promise_all (map (createMetricDescriptor cl) ?reqs)")
      (simp_all add: sendCreateMetrics_def Let_def)
  then have res: "sendCreateMetrics cl st ts =
      (fst (setResponseDescriptors st ds), snd (setResponseDescriptors st ds),
       map CreateMetricDescriptor ?reqs)"
    by (simp add: sendCreateMetrics_def Let_def)
  have ok': "fst (setResponseDescriptors st ds) = None" using ok res by simp
  have mem': "(k, m) \<in> set (metricsMap (snd (setResponseDescriptors st ds)))"
    using mem res by (simp add: state_after_def)
  from setResponseDescriptors_unregistered [OF keys ok' mem' none]
  have old: "(k, m) \<in> set (metricsMap st)"
    and fresh: "k \<notin> (\<lambda>d. getMetricName (descType d)) ` set ds" by simp_all
  have "createMetricsRequest cl st (requestDescriptor m) \<in> set ?reqs"
    using old none by (force simp add: pendingRequests_def map_values_def)
  moreover have "list_all2 (\<lambda>req d. createMetricDescriptor cl req = Inr d) ?reqs ds"
    using promise_all_Inr [OF ds] by (simp add: list_all2_map1)
  ultimately have "\<exists>d \<in> set ds.
      createMetricDescriptor cl (createMetricsRequest cl st (requestDescriptor m)) = Inr d"
    by (rule list_all2_memD [rotated])
  then obtain d where din: "d \<in> set ds"
    and "createMetricDescriptor cl (createMetricsRequest cl st (requestDescriptor m)) = Inr d"
    by blast
  from echo [OF old none this(2)] have "getMetricName (descType d) = k" .
  with din have "k \<in> (\<lambda>d. getMetricName (descType d)) ` set ds" by blast
  with fresh show False by simp
qed

lemma sendCreateMetrics_nothing_pending:
  assumes "\<And>k m. (k, m) \<in> set (metricsMap s) \<Longrightarrow> responseDescriptor m \<noteq> None"
  shows "sendCreateMetrics cl s ts = (None, s, [])" and "pendingNames s = []"
proof -
  have "filter (\<lambda>e. responseDescriptor e = None) (map_values (metricsMap s)) = []"
    using assms by (auto simp add: filter_empty_conv map_values_def)
  then show "sendCreateMetrics cl s ts = (None, s, [])"
    by (simp add: sendCreateMetrics_def pendingRequests_def Let_def)
  show "pendingNames s = []"
    using assms by (auto simp add: pendingNames_def filter_empty_conv)
qed

text \<open>A submission phase that completes leaves every metric cleared.\<close>

lemma clearValue_convertRate: "clearValue (convertRate ts p m) = clearValue m"
  by (cases "rateInterval m") (simp_all add: clearValue_def convertRate_def Let_def)

lemma update_each_comp: "update_each f (update_each g ms) = update_each (\<lambda>m. f (g m)) ms"
  by (simp add: update_each_def case_prod_beta)

lemma update_each_cong:
  "(\<And>m. m \<in> set (map_values ms) \<Longrightarrow> f m = g m) \<Longrightarrow> update_each f ms = update_each g ms"
proof (induction ms)
  case Nil
  show ?case by (simp add: update_each_def)
next
  case (Cons a ms)
  have "f (snd a) = g (snd a)" using Cons.prems [of "snd a"] by (simp add: map_values_def)
  moreover have "update_each f ms = update_each g ms"
    using Cons.IH Cons.prems by (simp add: map_values_def)
  ultimately show ?case by (simp add: update_each_def case_prod_beta)
qed

lemma list_all2_memD_right:
  "list_all2 P xs ys \<Longrightarrow> y \<in> set ys \<Longrightarrow> \<exists>x \<in> set xs. P x y"
  by (induction rule: list_all2_induct) auto

lemma not_included_fixed:
  assumes "\<not> included m"
  shows "convertRate ts p m = clearValue m"
proof -
  have nt: "\<not> truthy (rateInterval m)" and u: "mvalue m = Undefined"
    using assms by (simp_all add: included_def)
  have "m\<lparr>mvalue := Undefined\<rparr> = m" using u by simp
  then show ?thesis using nt by (simp add: convertRate_gauge clearValue_def)
qed

lemma createTimeSeriesData_validValueType:
  "createTimeSeriesData st ts m = Inr e \<Longrightarrow> validValueType m"
  by (auto simp add: createTimeSeriesData_def createDataPoint_def validValueType_def
      split: sum.splits if_splits)

lemma sendTimeSeries_completed:
  assumes "outcome (sendTimeSeries cl s ts) = Inr res"
  shows "state_after (sendTimeSeries cl s ts)
           = s\<lparr>metricsMap := update_each clearValue (metricsMap s), prevSendTimestamp := ts\<rparr>"
    and "\<And>m. m \<in> set (map_values (metricsMap s)) \<Longrightarrow> truthy (rateInterval m) \<Longrightarrow> validValueType m"
proof -
  let ?p = "prevSendTimestamp s"
  let ?s2 = "s\<lparr>metricsMap := update_each (convertRate ts ?p) (metricsMap s),
                prevSendTimestamp := ts\<rparr>"
  let ?xs = "filter included (map_values (update_each (convertRate ts ?p) (metricsMap s)))"
  obtain es where es: "map_throwing (createTimeSeriesData ?s2 ts) ?xs = Inr es"
    using assms
    by (cases "map_throwing (createTimeSeriesData ?s2 ts) ?xs")
       (simp_all add: sendTimeSeries_def outcome_def Let_def)
  have l2: "list_all2 (\<lambda>m e. createTimeSeriesData ?s2 ts (convertRate ts ?p m) = Inr e)
              (filter included (map_values (metricsMap s))) es"
    using map_throwing_Inr [OF es]
    by (simp add: map_values_update_each filter_included_converted list_all2_map1)
  show "validValueType m"
    if "m \<in> set (map_values (metricsMap s))" and "truthy (rateInterval m)" for m
  proof -
    have "m \<in> set (filter included (map_values (metricsMap s)))"
      using that by (simp add: included_def)
    from list_all2_memD [OF l2 this] obtain e
      where "createTimeSeriesData ?s2 ts (convertRate ts ?p m) = Inr e" by blast
    from createTimeSeriesData_validValueType [OF this] show ?thesis
      by (simp add: validValueType_preserved)
  qed
  show "state_after (sendTimeSeries cl s ts)
           = s\<lparr>metricsMap := update_each clearValue (metricsMap s), prevSendTimestamp := ts\<rparr>"
  proof (cases "es = []")
    case True
    then have "filter included (map_values (metricsMap s)) = []"
      using l2 by simp
    then have "\<forall>m \<in> set (map_values (metricsMap s)). \<not> included m"
      by (simp add: filter_empty_conv)
    then have ni: "\<not> included m" if "m \<in> set (map_values (metricsMap s))" for m
      using that by blast
    have "update_each (convertRate ts ?p) (metricsMap s) = update_each clearValue (metricsMap s)"
    proof (rule update_each_cong)
      fix m assume "m \<in> set (map_values (metricsMap s))"
      then have "\<not> included m" by (rule ni)
      then show "convertRate ts ?p m = clearValue m" by (rule not_included_fixed)
    qed
    moreover have "state_after (sendTimeSeries cl s ts) = ?s2"
      using es True by (simp add: sendTimeSeries_def state_after_def Let_def)
    ultimately show ?thesis by simp
  next
    case False
    then obtain r where "createTimeSeries cl
        \<lparr>seriesName = projectPath cl (projectId s), timeSeries = es\<rparr> = Inr r"
      using assms es
      by (cases "createTimeSeries cl \<lparr>seriesName = projectPath cl (projectId s), timeSeries = es\<rparr>")
         (simp_all add: sendTimeSeries_def outcome_def Let_def)
    then have "state_after (sendTimeSeries cl s ts)
        = ?s2\<lparr>metricsMap := update_each clearValue (metricsMap ?s2)\<rparr>"
      using es False by (simp add: sendTimeSeries_def state_after_def Let_def)
    then show ?thesis
      by (simp add: update_each_comp clearValue_convertRate)
  qed
qed

lemma convertRate_clearValue: "convertRate ts p (clearValue m) = clearValue m"
proof (cases "rateInterval m")
  case None
  then show ?thesis by (simp add: convertRate_def clearValue_def)
next
  case (Some u)
  then show ?thesis
    by (simp add: convertRate_def clearValue_def Let_def js_div_def js_mul_def)
qed

lemma included_clearValue: "included (clearValue m) = truthy (rateInterval m)"
  by (simp add: included_def clearValue_def)

lemma filter_included_cleared:
  "filter included (map clearValue ms) = map clearValue (filter (\<lambda>m. truthy (rateInterval m)) ms)"
  by (induction ms) (simp_all add: included_clearValue)

lemma sendTimeSeries_cleared:
  assumes valid: "\<And>m. m \<in> set (map_values ms) \<Longrightarrow> truthy (rateInterval m) \<Longrightarrow> validValueType m"
    and s1: "metricsMap s1 = update_each clearValue ms"
  shows "(filter (\<lambda>m. truthy (rateInterval m)) (map_values ms) = []
            \<longrightarrow> calls_of (sendTimeSeries cl s1 ts) = [])
         \<and> (filter (\<lambda>m. truthy (rateInterval m)) (map_values ms) \<noteq> []
            \<longrightarrow> (\<exists>req. calls_of (sendTimeSeries cl s1 ts) = [CreateTimeSeries req]
                  \<and> map metricType (timeSeries req)
                      = map (descType \<circ> requestDescriptor)
                          (filter (\<lambda>m. truthy (rateInterval m)) (map_values ms))
                  \<and> (\<forall>e \<in> set (timeSeries req).
                        map (carried \<circ> pointValue) (points e) = [Number 0])))"
proof -
  let ?p = "prevSendTimestamp s1"
  let ?s2 = "s1\<lparr>metricsMap := update_each (convertRate ts ?p) (metricsMap s1),
                 prevSendTimestamp := ts\<rparr>"
  let ?rates = "filter (\<lambda>m. truthy (rateInterval m)) (map_values ms)"
  let ?xs = "filter included (map_values (update_each (convertRate ts ?p) (metricsMap s1)))"
  have conv: "update_each (convertRate ts ?p) (metricsMap s1) = metricsMap s1"
    by (simp add: s1 update_each_comp convertRate_clearValue)
  have xs: "?xs = map clearValue ?rates"
    by (simp add: conv) (simp add: s1 map_values_update_each filter_included_cleared)
  have "\<exists>e. createTimeSeriesData ?s2 ts x = Inr e" if "x \<in> set ?xs" for x
  proof -
    from that obtain m where "m \<in> set (map_values ms)" and "truthy (rateInterval m)"
      and x: "x = clearValue m"
      unfolding xs by auto
    then have "validValueType x" using valid by (simp add: validValueType_preserved)
    then show ?thesis by (rule createTimeSeriesData_valid)
  qed
  then obtain es where es: "map_throwing (createTimeSeriesData ?s2 ts) ?xs = Inr es"
    using map_throwing_total [of ?xs "createTimeSeriesData ?s2 ts"] by blast
  have l2: "list_all2 (\<lambda>m e. createTimeSeriesData ?s2 ts (clearValue m) = Inr e) ?rates es"
    using map_throwing_Inr [OF es] unfolding xs by (simp add: list_all2_map1)
  have len: "length es = length ?rates" using l2 by (simp add: list_all2_lengthD)
  have types: "map metricType es = map (descType \<circ> requestDescriptor) ?rates"
    by (rule list_all2_map_eq [OF l2]) (simp add: createTimeSeriesData_Inr clearValue_def)
  have zero: "\<forall>e \<in> set es. map (carried \<circ> pointValue) (points e) = [Number 0]"
  proof
    fix e assume "e \<in> set es"
    from list_all2_memD_right [OF l2 this]
    obtain m where "m \<in> set ?rates" and "createTimeSeriesData ?s2 ts (clearValue m) = Inr e"
      by blast
    from createTimeSeriesData_Inr [OF this(2)] this(1)
    show "map (carried \<circ> pointValue) (points e) = [Number 0]"
      by (simp add: clearValue_value)
  qed
  note calls = sendTimeSeries_calls_Inr(1) [OF es, of cl]
  show ?thesis
  proof (cases "?rates = []")
    case True
    then have "es = []" using len by simp
    with calls True show ?thesis by simp
  next
    case False
    then have "es \<noteq> []" using len by auto
    with calls types zero False show ?thesis by simp
  qed
qed

lemma erased_rates:
  fixes ms ms' :: "(string \<times> metric) list"
  assumes "map (\<lambda>(k, m). (k, m\<lparr>responseDescriptor := None\<rparr>)) ms'
           = map (\<lambda>(k, m). (k, m\<lparr>responseDescriptor := None\<rparr>)) ms"
  shows "map (descType \<circ> requestDescriptor) (filter (\<lambda>m. truthy (rateInterval m)) (map_values ms'))
         = map (descType \<circ> requestDescriptor) (filter (\<lambda>m. truthy (rateInterval m)) (map_values ms))"
proof -
  have norm: "map (descType \<circ> requestDescriptor) (filter (\<lambda>m. truthy (rateInterval m)) (map_values xs))
        = map (descType \<circ> requestDescriptor) (filter (\<lambda>m. truthy (rateInterval m))
            (map_values (map (\<lambda>(k, m). (k, m\<lparr>responseDescriptor := None\<rparr>)) xs)))"
    for xs :: "(string \<times> metric) list"
    by (induction xs) (auto simp add: map_values_def)
  show ?thesis
    by (subst norm [of ms'], subst norm [of ms]) (simp add: assms)
qed

text \<open>
  Claim C7, as stated, fails: rate metrics are always submitted. After the deltas 3 and 2
  and a successful flush of \<open>requests\<close> at 2000, a second flush at the same timestamp
  with no write in between issues a time-series request with a point for \<open>requests\<close>.
\<close>

theorem second_flush_not_empty_counterexample:
  "outcome (sendValues echoClient requestsWritten 2000) = Inr (Some ())
   \<and> calls_of (sendValues echoClient
                 (state_after (sendValues echoClient requestsWritten 2000)) 2000)
       = [CreateTimeSeries (requestsSeriesAt (Number 0) 2000)]
   \<and> timeSeries (requestsSeriesAt (Number 0) 2000) \<noteq> []"
proof -
  have first: "sendValues echoClient requestsWritten 2000 =
      (Inr (Some ()),
       (exampleInstance [(''requests'',
           requestsMetric\<lparr>mvalue := Number 0,
             responseDescriptor := Some (requestDescriptor requestsMetric)\<rparr>)])
          \<lparr>prevSendTimestamp := 2000\<rparr>,
       [CreateMetricDescriptor requestsRegistration,
        CreateTimeSeries (requestsSeriesAt (Number (5 / 2)) 2000)])"
    by (simp add: sendValues_requests client_fields)
  have second: "calls_of (sendValues echoClient
       ((exampleInstance [(''requests'',
           requestsMetric\<lparr>mvalue := Number 0,
             responseDescriptor := Some (requestDescriptor requestsMetric)\<rparr>)])
          \<lparr>prevSendTimestamp := 2000\<rparr>) 2000)
       = [CreateTimeSeries (requestsSeriesAt (Number 0) 2000)]"
    using sendTimeSeries_requests [OF client_fields(1), where x = 0 and p = 2000 and ts = 2000
        and v = "Number 0" and rd = "Some (requestDescriptor requestsMetric)"]
    by (simp add: sendValues_def sendCreateMetrics_registered client_fields calls_of_def)
  show ?thesis
    by (simp add: first second outcome_def state_after_def requestsSeriesAt_def)
qed

text \<open>
  Claim C7, amended. When the first of two flushes completes without error, with the
  keys of the metrics map distinct and every registration response naming, in the last
  segment of its type, the metric it was requested for, the second flush, with no write
  in between, issues no registration request, and submits exactly one point with the
  value 0 for each rate metric and no point for any other metric: one request when the
  instance has a rate metric, none otherwise.
\<close>

theorem second_flush_submits_zero_rates:
  assumes first: "outcome (sendValues cl st t1) = Inr res"
    and keys: "distinct (map fst (metricsMap st))"
    and echo: "\<And>k m d. (k, m) \<in> set (metricsMap st) \<Longrightarrow> responseDescriptor m = None \<Longrightarrow>
                 createMetricDescriptor cl (createMetricsRequest cl st (requestDescriptor m)) = Inr d \<Longrightarrow>
                 getMetricName (descType d) = k"
  shows "pendingNames (state_after (sendValues cl st t1)) = []
         \<and> (filter (\<lambda>m. truthy (rateInterval m)) (map_values (metricsMap st)) = []
            \<longrightarrow> calls_of (sendValues cl2 (state_after (sendValues cl st t1)) t2) = [])
         \<and> (filter (\<lambda>m. truthy (rateInterval m)) (map_values (metricsMap st)) \<noteq> []
            \<longrightarrow> (\<exists>req. calls_of (sendValues cl2 (state_after (sendValues cl st t1)) t2)
                          = [CreateTimeSeries req]
                  \<and> map metricType (timeSeries req)
                      = map (descType \<circ> requestDescriptor)
                          (filter (\<lambda>m. truthy (rateInterval m)) (map_values (metricsMap st)))
                  \<and> (\<forall>e \<in> set (timeSeries req).
                        map (carried \<circ> pointValue) (points e) = [Number 0])))"
proof -
  let ?stR = "state_after (sendCreateMetrics cl st t1)"
  let ?st1 = "state_after (sendValues cl st t1)"
  let ?rates = "\<lambda>ms. filter (\<lambda>m. truthy (rateInterval m)) (map_values ms)"
  have reg: "fst (sendCreateMetrics cl st t1) = None"
  proof (cases "fst (sendCreateMetrics cl st t1)")
    case None
    then show ?thesis .
  next
    case (Some e)
    then have "outcome (sendValues cl st t1) = Inl e"
      by (simp add: sendValues_unfold outcome_def)
    with first show ?thesis by simp
  qed
  have st1: "?st1 = state_after (sendTimeSeries cl ?stR t1)"
    using reg by (simp add: sendValues_unfold state_after_def [of "(a, b, c)" for a b c])
  have oc: "outcome (sendTimeSeries cl ?stR t1) = Inr res"
    using reg first by (simp add: sendValues_unfold outcome_def [of "(a, b, c)" for a b c])
  note fin = sendTimeSeries_completed [OF oc]
  have ms1: "metricsMap ?st1 = update_each clearValue (metricsMap ?stR)"
    unfolding st1 fin(1) by simp
  have registered: "responseDescriptor m \<noteq> None" if "(k, m) \<in> set (metricsMap ?st1)" for k m
  proof -
    from that obtain m0 where m0: "(k, m0) \<in> set (metricsMap ?stR)" and m: "m = clearValue m0"
      unfolding ms1 by (auto simp add: update_each_def)
    have "responseDescriptor m0 \<noteq> None"
      by (rule sendCreateMetrics_registers_all [OF reg keys echo m0])
    then show ?thesis by (simp add: m clearValue_def)
  qed
  have pn: "pendingNames ?st1 = []"
    by (rule sendCreateMetrics_nothing_pending(2)) (rule registered)
  have "sendCreateMetrics cl2 ?st1 t2 = (None, ?st1, [])"
    by (rule sendCreateMetrics_nothing_pending(1)) (rule registered)
  then have calls: "calls_of (sendValues cl2 ?st1 t2) = calls_of (sendTimeSeries cl2 ?st1 t2)"
    by (simp add: sendValues_def calls_of_def split: prod.splits)
  have types: "map (descType \<circ> requestDescriptor) (?rates (metricsMap ?stR))
      = map (descType \<circ> requestDescriptor) (?rates (metricsMap st))"
    by (rule erased_rates [OF sendCreateMetrics_frame])
  then have "length (?rates (metricsMap ?stR)) = length (?rates (metricsMap st))"
    by (rule map_eq_imp_length_eq)
  then have empty: "?rates (metricsMap ?stR) = [] \<longleftrightarrow> ?rates (metricsMap st) = []"
    by (metis length_0_conv)
  from sendTimeSeries_cleared [of "metricsMap ?stR" ?st1 cl2 t2, OF fin(2) ms1]
  show ?thesis
    unfolding calls types empty using pn by simp
qed

theorem second_flush_submits_zero_rates_witness:
  "outcome (sendValues echoClient requestsWritten 2000) = Inr (Some ())
   \<and> distinct (map fst (metricsMap requestsWritten))
   \<and> filter (\<lambda>m. truthy (rateInterval m)) (map_values (metricsMap requestsWritten))
       = [requestsMetric\<lparr>mvalue := Number 5\<rparr>]
   \<and> pendingNames (state_after (sendValues echoClient requestsWritten 2000)) = []
   \<and> (\<exists>req. calls_of (sendValues echoClient
                  (state_after (sendValues echoClient requestsWritten 2000)) 2000)
               = [CreateTimeSeries req]
          \<and> map metricType (timeSeries req) = [''custom.googleapis.com/app/requests'']
          \<and> (\<forall>e \<in> set (timeSeries req).
                map (carried \<circ> pointValue) (points e) = [Number 0]))"
proof -
  have h1: "outcome (sendValues echoClient requestsWritten 2000) = Inr (Some ())"
    by (simp add: sendValues_requests client_fields outcome_def)
  have h2: "distinct (map fst (metricsMap requestsWritten))"
    by (simp add: requestsWritten_eq exampleInstance_def)
  have h3: "getMetricName (descType d) = k"
    if "(k, m) \<in> set (metricsMap requestsWritten)" and "responseDescriptor m = None"
      and "createMetricDescriptor echoClient
             (createMetricsRequest echoClient requestsWritten (requestDescriptor m)) = Inr d"
    for k m d
  proof -
    have "k = ''requests''" and "m = requestsMetric\<lparr>mvalue := Number 5\<rparr>"
      using that(1) by (simp_all add: requestsWritten_eq exampleInstance_def)
    moreover have "d = requestDescriptor m"
      using that(3) by (simp add: client_fields createMetricsRequest_def)
    ultimately show ?thesis
      by (simp add: requestsMetric_def getMetricName_def)
  qed
  have f: "filter (\<lambda>m. truthy (rateInterval m)) (map_values (metricsMap requestsWritten))
       = [requestsMetric\<lparr>mvalue := Number 5\<rparr>]"
    by (simp add: requestsWritten_eq map_values_def exampleInstance_def requestsMetric_def)
  have d: "descType (requestDescriptor requestsMetric) = ''custom.googleapis.com/app/requests''"
    by (simp add: requestsMetric_def)
  show ?thesis
    using h1 h2 f second_flush_submits_zero_rates [OF h1 h2 h3, where ?cl2.0 = echoClient and ?t2.0 = 2000]
    by (simp add: d)
qed

end
